theory Spec2Isabelle
  imports Main "HOL-Library.AList"
begin

section \<open>Data model\<close>

text \<open>
  Platform identifiers (guild, channel, user and role ids) are opaque strings, as the
  schema of \<^verbatim>\<open>src/index.js\<close> stores them (\<^verbatim>\<open>TEXT\<close> columns).
\<close>

type_synonym snowflake = string

subsection \<open>The SQLite tables (lines 25-53)\<close>

text \<open>
  A row of \<^verbatim>\<open>config\<close>; the key \<^verbatim>\<open>guildId\<close> is the key of the table.
  A column that is \<^verbatim>\<open>NULL\<close> is \<open>None\<close>.
\<close>

record config_row =
  supportRole :: "snowflake option"
  closedCategory :: "snowflake option"
  logChannel :: "snowflake option"
  panelColor :: "string option"

datatype ticket_status = StatusOpen | StatusClosed

text \<open>
  A row of \<^verbatim>\<open>tickets\<close>; the key \<^verbatim>\<open>channelId\<close> is the key of the table. The
  column \<^verbatim>\<open>status\<close> only ever receives the texts \<^verbatim>\<open>'open'\<close> and \<^verbatim>\<open>'closed'\<close>.
\<close>

record ticket_row =
  guildId :: snowflake
  ownerId :: snowflake
  panelName :: string
  status :: ticket_status
  createdAt :: nat
  closedAt :: "nat option"

subsection \<open>Channels of the guild\<close>

datatype perm = ViewChannel | SendMessages

record overwrite =
  allow :: "perm set"
  deny :: "perm set"

datatype channel_type = GuildText | GuildCategory | OtherChannel

record channel =
  ch_name :: string
  ch_type :: channel_type
  ch_parent :: "snowflake option"
  permissionOverwrites :: "snowflake \<rightharpoonup> overwrite"

subsection \<open>Calls to the outside: the gateway and the transcript exporter\<close>

text \<open>
  The buffer that \<^verbatim>\<open>createTranscript\<close> returns is opaque: it is identified by the
  channel it was rendered from.
\<close>

datatype transcript = TranscriptOf snowflake

text \<open>
  The two log messages (lines 446-452 and 497-503): the ticket channel whose name the
  text and the file name carry, the tag of the acting user, and the attached file.
\<close>

datatype message =
    ClosedTranscript snowflake string transcript
  | DeletedTranscript snowflake string transcript

datatype reply =
    AddedReply snowflake
  | RemovedReply snowflake
  | ClosedReply
  | ReopenedReply
  | DeletedReply
  | TranscriptReply transcript

datatype gw_call =
    CreateChannel string
  | SetParent snowflake snowflake
  | DeleteChannel snowflake
  | EditOverwrite snowflake snowflake
  | DeleteOverwrite snowflake snowflake
  | SendMessage snowflake message
  | ExportTranscript snowflake
  | DeferReply
  | Reply reply
  | EditReply reply

datatype error =
    NotConfigured
  | DuplicateTicket
  | NotATicketChannel
  | Forbidden string
  | CannotRemoveOwner
  | NotClosed
  | GatewayError
  | ExportError
  | StoreError
  | TypeError
  | SyntaxError
  | UnknownAction

text \<open>
  What the program does not decide: which outside calls are rejected, the clock of
  \<^verbatim>\<open>strftime('%s', 'now')\<close>, and the id the platform gives a new channel.
\<close>

record env =
  fails :: "gw_call \<Rightarrow> bool"
  now :: nat
  new_channel_id :: snowflake

text \<open>
  The state the program works on: the three tables it reads and writes here, the guild
  of the interaction with its channel collection (\<^verbatim>\<open>guild.channels.cache\<close>, in
  insertion order), and the outside calls that went through, oldest first.
  \<^verbatim>\<open>ticket_members\<close> has the key \<^verbatim>\<open>(channelId, userId)\<close>; it is a list of rows
  since the loops of \<^verbatim>\<open>close\<close> and \<^verbatim>\<open>open\<close> walk it in the order the
  \<^verbatim>\<open>SELECT\<close> returns.
\<close>

record world =
  db_config :: "snowflake \<rightharpoonup> config_row"
  db_tickets :: "snowflake \<rightharpoonup> ticket_row"
  db_ticket_members :: "(snowflake \<times> snowflake) list"
  guild_id :: snowflake
  guild_channels :: "(snowflake \<times> channel) list"
  trace :: "gw_call list"

record user =
  user_id :: snowflake
  username :: string
  user_tag :: string

datatype subcommand =
    Add snowflake
  | Remove snowflake
  | Close
  | Delete
  | Open
  | Transcript
  | Unknown

text \<open>
  An interaction: the subcommand with its user option, the channel it was issued in, the
  calling user, and of the calling member the roles and the administrator permission.
\<close>

record interaction =
  subcommand :: subcommand
  channel_id :: snowflake
  caller :: user
  member_roles :: "snowflake set"
  member_admin :: bool

section \<open>Computations that may throw\<close>

text \<open>
  A JavaScript exception leaves every mutation made before it in place, so a computation
  returns the state it reached together with its value or its error.
\<close>

type_synonym 'a io = "world \<Rightarrow> (error + 'a) \<times> world"

definition ok :: "'a \<Rightarrow> 'a io" where
  "ok x w = (Inr x, w)"

definition throw :: "error \<Rightarrow> 'a io" where
  "throw e w = (Inl e, w)"

definition seq :: "'a io \<Rightarrow> ('a \<Rightarrow> 'b io) \<Rightarrow> 'b io" where
  "seq m f w = (case m w of (Inl e, w') \<Rightarrow> (Inl e, w') | (Inr x, w') \<Rightarrow> f x w')"

text \<open>
  \<^verbatim>\<open>config?.f\<close> is \<open>Option.bind config f\<close>: \<^verbatim>\<open>undefined\<close> without a row,
  the column otherwise. Such a value is truthy when it is a text that is not empty;
  \<open>truthy\<close> gives that text.
\<close>

definition truthy :: "string option \<Rightarrow> string option" where
  "truthy x = (case x of None \<Rightarrow> None | Some s \<Rightarrow> if s = [] then None else Some s)"

text \<open>
  Reading \<^verbatim>\<open>.ownerId\<close> of the result of \<^verbatim>\<open>.get(...)\<close>, which is
  \<^verbatim>\<open>undefined\<close> when no row matches: a \<^verbatim>\<open>TypeError\<close> then.
\<close>

definition ownerId_of :: "ticket_row option \<Rightarrow> snowflake io" where
  "ownerId_of t = (case t of None \<Rightarrow> throw TypeError | Some r \<Rightarrow> ok (ownerId r))"

section \<open>The gateway\<close>

text \<open>
  Every outside call either is rejected (it throws, and changes nothing) or goes through
  and is recorded. A call on a channel that the guild does not have is rejected.
\<close>

definition has_channel :: "world \<Rightarrow> snowflake \<Rightarrow> bool" where
  "has_channel w c = (map_of (guild_channels w) c \<noteq> None)"

definition outside :: "env \<Rightarrow> gw_call \<Rightarrow> (world \<Rightarrow> world) \<Rightarrow> unit io" where
  "outside e c f w =
     (if fails e c then (Inl GatewayError, w)
      else (Inr (), (f w)\<lparr>trace := trace w @ [c]\<rparr>))"

definition on_channel :: "env \<Rightarrow> snowflake \<Rightarrow> gw_call \<Rightarrow> (channel \<Rightarrow> channel) \<Rightarrow> unit io" where
  "on_channel e c call f w =
     (if \<not> has_channel w c then (Inl GatewayError, w)
      else outside e call
             (\<lambda>w. w\<lparr>guild_channels := AList.map_entry c f (guild_channels w)\<rparr>) w)"

text \<open>\<^verbatim>\<open>permissionOverwrites.edit(id, {ViewChannel: true, SendMessages: true})\<close>\<close>

definition grant :: "overwrite option \<Rightarrow> overwrite" where
  "grant ov = (case ov of
       None \<Rightarrow> \<lparr>allow = {ViewChannel, SendMessages}, deny = {}\<rparr>
     | Some x \<Rightarrow> \<lparr>allow = allow x \<union> {ViewChannel, SendMessages},
                  deny = deny x - {ViewChannel, SendMessages}\<rparr>)"

definition overwrites_edit :: "env \<Rightarrow> snowflake \<Rightarrow> snowflake \<Rightarrow> unit io" where
  "overwrites_edit e c u =
     on_channel e c (EditOverwrite c u)
       (\<lambda>ch. ch\<lparr>permissionOverwrites :=
                   (permissionOverwrites ch)(u \<mapsto> grant (permissionOverwrites ch u))\<rparr>)"

text \<open>\<^verbatim>\<open>permissionOverwrites.delete(id)\<close>\<close>

definition overwrites_delete :: "env \<Rightarrow> snowflake \<Rightarrow> snowflake \<Rightarrow> unit io" where
  "overwrites_delete e c u =
     on_channel e c (DeleteOverwrite c u)
       (\<lambda>ch. ch\<lparr>permissionOverwrites := (permissionOverwrites ch)(u := None)\<rparr>)"

text \<open>
  \<^verbatim>\<open>channel.setParent(id)\<close>, as line 431 calls it, without options. The client library
  then takes its option \<^verbatim>\<open>lockPermissions\<close> to be true: when the new parent is a
  category of the guild's channel collection, the overwrites of the moved channel are
  replaced by those of the category; otherwise they stay.
\<close>

definition lockPermissions :: "world \<Rightarrow> snowflake \<Rightarrow> channel \<Rightarrow> (snowflake \<rightharpoonup> overwrite)" where
  "lockPermissions w p ch =
     (case map_of (guild_channels w) p of
        None \<Rightarrow> permissionOverwrites ch
      | Some newParent \<Rightarrow>
          if ch_type newParent = GuildCategory then permissionOverwrites newParent
          else permissionOverwrites ch)"

definition setParent :: "env \<Rightarrow> snowflake \<Rightarrow> snowflake \<Rightarrow> unit io" where
  "setParent e c p w =
     on_channel e c (SetParent c p)
       (\<lambda>ch. ch\<lparr>ch_parent := Some p, permissionOverwrites := lockPermissions w p ch\<rparr>) w"

definition channel_delete :: "env \<Rightarrow> snowflake \<Rightarrow> unit io" where
  "channel_delete e c w =
     (if \<not> has_channel w c then (Inl GatewayError, w)
      else outside e (DeleteChannel c)
             (\<lambda>w. w\<lparr>guild_channels := AList.delete c (guild_channels w)\<rparr>) w)"

definition send :: "env \<Rightarrow> snowflake \<Rightarrow> message \<Rightarrow> unit io" where
  "send e c m = on_channel e c (SendMessage c m) (\<lambda>ch. ch)"

definition reply :: "env \<Rightarrow> reply \<Rightarrow> unit io" where
  "reply e r = outside e (Reply r) (\<lambda>w. w)"

definition deferReply :: "env \<Rightarrow> unit io" where
  "deferReply e = outside e DeferReply (\<lambda>w. w)"

definition editReply :: "env \<Rightarrow> reply \<Rightarrow> unit io" where
  "editReply e r = outside e (EditReply r) (\<lambda>w. w)"

text \<open>
  \<^verbatim>\<open>guild.channels.create\<close> (lines 210-218): a text channel in which the guild's
  everyone-role is denied the view, and the user and the support role may view and send.
\<close>

definition channels_create ::
  "env \<Rightarrow> string \<Rightarrow> snowflake \<Rightarrow> snowflake \<Rightarrow> snowflake io" where
  "channels_create e name uid role w =
     (let both = \<lparr>allow = {ViewChannel, SendMessages}, deny = {}\<rparr>;
          ch = \<lparr>ch_name = name, ch_type = GuildText, ch_parent = None,
                permissionOverwrites =
                  [guild_id w \<mapsto> \<lparr>allow = {}, deny = {ViewChannel}\<rparr>,
                   uid \<mapsto> both, role \<mapsto> both]\<rparr>
      in seq (outside e (CreateChannel name)
                (\<lambda>w. w\<lparr>guild_channels :=
                          AList.update (new_channel_id e) ch (guild_channels w)\<rparr>))
             (\<lambda>_. ok (new_channel_id e)) w)"

text \<open>\<^verbatim>\<open>generateTranscript\<close> (lines 234-241)\<close>

definition generateTranscript :: "env \<Rightarrow> snowflake \<Rightarrow> transcript io" where
  "generateTranscript e c w =
     (if fails e (ExportTranscript c) then (Inl ExportError, w)
      else (Inr (TranscriptOf c), w\<lparr>trace := trace w @ [ExportTranscript c]\<rparr>))"

section \<open>The store\<close>

text \<open>The SQL statements of the program, one definition each.\<close>

definition select_config :: "world \<Rightarrow> config_row option" where
  "select_config w = db_config w (guild_id w)"

definition select_ticket :: "world \<Rightarrow> snowflake \<Rightarrow> ticket_row option" where
  "select_ticket w c = db_tickets w c"

text \<open>\<^verbatim>\<open>SELECT * FROM tickets WHERE channelId = ? AND status = 'closed'\<close>\<close>

definition select_closed_ticket :: "world \<Rightarrow> snowflake \<Rightarrow> ticket_row option" where
  "select_closed_ticket w c =
     (case db_tickets w c of
        None \<Rightarrow> None
      | Some t \<Rightarrow> if status t = StatusClosed then Some t else None)"

text \<open>
  \<^verbatim>\<open>SELECT userId FROM ticket_members WHERE channelId = ?\<close>. The rows come in the
  order of the list; SQLite answers this query from the index of the primary key, sorted
  by \<^verbatim>\<open>userId\<close>. No statement below depends on the order: each holds for every list of
  rows.
\<close>

definition select_members :: "world \<Rightarrow> snowflake \<Rightarrow> snowflake list" where
  "select_members w c = map snd (filter (\<lambda>r. fst r = c) (db_ticket_members w))"

text \<open>
  \<^verbatim>\<open>INSERT INTO tickets\<close> (lines 221-224): a second row with the same primary key
  is a constraint error. \<^verbatim>\<open>status\<close> and \<^verbatim>\<open>createdAt\<close> take their defaults.
\<close>

definition insert_ticket :: "env \<Rightarrow> snowflake \<Rightarrow> snowflake \<Rightarrow> snowflake \<Rightarrow> string \<Rightarrow> unit io" where
  "insert_ticket e c g u p w =
     (if db_tickets w c \<noteq> None then (Inl StoreError, w)
      else (Inr (), w\<lparr>db_tickets := (db_tickets w)(c \<mapsto>
              \<lparr>guildId = g, ownerId = u, panelName = p, status = StatusOpen,
               createdAt = now e, closedAt = None\<rparr>)\<rparr>))"

text \<open>\<^verbatim>\<open>INSERT INTO ticket_members\<close> (lines 226-229)\<close>

definition insert_member :: "snowflake \<Rightarrow> snowflake \<Rightarrow> unit io" where
  "insert_member c u w =
     (if (c, u) \<in> set (db_ticket_members w) then (Inl StoreError, w)
      else (Inr (), w\<lparr>db_ticket_members := db_ticket_members w @ [(c, u)]\<rparr>))"

text \<open>\<^verbatim>\<open>INSERT OR IGNORE INTO ticket_members\<close> (lines 383-386)\<close>

definition insert_or_ignore_member :: "snowflake \<Rightarrow> snowflake \<Rightarrow> unit io" where
  "insert_or_ignore_member c u w =
     (if (c, u) \<in> set (db_ticket_members w) then (Inr (), w)
      else (Inr (), w\<lparr>db_ticket_members := db_ticket_members w @ [(c, u)]\<rparr>))"

text \<open>\<^verbatim>\<open>DELETE FROM ticket_members WHERE channelId = ? AND userId = ?\<close>\<close>

definition delete_member :: "snowflake \<Rightarrow> snowflake \<Rightarrow> unit io" where
  "delete_member c u w =
     (Inr (), w\<lparr>db_ticket_members := filter (\<lambda>r. r \<noteq> (c, u)) (db_ticket_members w)\<rparr>)"

text \<open>\<^verbatim>\<open>DELETE FROM ticket_members WHERE channelId = ?\<close>\<close>

definition delete_members :: "snowflake \<Rightarrow> unit io" where
  "delete_members c w =
     (Inr (), w\<lparr>db_ticket_members := filter (\<lambda>r. fst r \<noteq> c) (db_ticket_members w)\<rparr>)"

text \<open>\<^verbatim>\<open>DELETE FROM tickets WHERE channelId = ?\<close>\<close>

definition delete_ticket :: "snowflake \<Rightarrow> unit io" where
  "delete_ticket c w = (Inr (), w\<lparr>db_tickets := (db_tickets w)(c := None)\<rparr>)"

text \<open>
  \<^verbatim>\<open>UPDATE tickets SET status = 'closed', closedAt = strftime('%s', 'now')
  WHERE channelId = ?\<close>
\<close>

definition update_closed :: "env \<Rightarrow> snowflake \<Rightarrow> unit io" where
  "update_closed e c w =
     (Inr (), w\<lparr>db_tickets := (case db_tickets w c of
                   None \<Rightarrow> db_tickets w
                 | Some t \<Rightarrow> (db_tickets w)(c \<mapsto>
                     t\<lparr>status := StatusClosed, closedAt := Some (now e)\<rparr>))\<rparr>)"

text \<open>
  Line 476, the statement of \<^verbatim>\<open>case 'open'\<close> that is to set the status:
  \<^verbatim>\<open>db.prepare('UPDATE tickets SET status = 'open' WHERE channelId = ?').run(channel.id)\<close>.
  The text of the statement stands between single quotes and has single quotes around
  \<^verbatim>\<open>open\<close>, so the string ends before \<^verbatim>\<open>open\<close> and the line is no statement of
  JavaScript: no \<^verbatim>\<open>UPDATE\<close> is ever run. The model takes every other line as it
  reads and this line as the error it is, raised where the line stands.
\<close>

definition update_open :: "snowflake \<Rightarrow> unit io" where
  "update_open c = throw SyntaxError"

section \<open>createTicketChannel (lines 195-232)\<close>

text \<open>
  \<^verbatim>\<open>toLowerCase\<close> on the letters A to Z; other characters stay as they are.
\<close>

definition toLowerCase_char :: "char \<Rightarrow> char" where
  "toLowerCase_char c =
     (case map_of (zip ''ABCDEFGHIJKLMNOPQRSTUVWXYZ'' ''abcdefghijklmnopqrstuvwxyz'') c of
        None \<Rightarrow> c
      | Some l \<Rightarrow> l)"

definition toLowerCase :: "string \<Rightarrow> string" where
  "toLowerCase s = map toLowerCase_char s"

definition ticketName_of :: "user \<Rightarrow> string" where
  "ticketName_of u = ''ticket-'' @ toLowerCase (username u)"

definition existingTicket :: "world \<Rightarrow> string \<Rightarrow> (snowflake \<times> channel) option" where
  "existingTicket w name =
     find (\<lambda>(_, c). ch_name c = name \<and> ch_type c = GuildText) (guild_channels w)"

definition createTicketChannel :: "env \<Rightarrow> user \<Rightarrow> string \<Rightarrow> snowflake io" where
  "createTicketChannel e u panel w =
     (case truthy (Option.bind (select_config w) supportRole) of
        None \<Rightarrow> throw NotConfigured w
      | Some role \<Rightarrow>
          if existingTicket w (ticketName_of u) \<noteq> None then throw DuplicateTicket w
          else seq (channels_create e (ticketName_of u) (user_id u) role) (\<lambda>c.
               seq (insert_ticket e c (guild_id w) (user_id u) panel) (\<lambda>_.
               seq (insert_member c (user_id u)) (\<lambda>_.
               ok c))) w)"

section \<open>handleSlashCommand (lines 300-540)\<close>

text \<open>
  \<^verbatim>\<open>isStaff = config?.supportRole && member.roles.cache.has(config.supportRole)\<close>
\<close>

definition isStaff :: "world \<Rightarrow> interaction \<Rightarrow> bool" where
  "isStaff w i =
     (case truthy (Option.bind (select_config w) supportRole) of
        None \<Rightarrow> False
      | Some role \<Rightarrow> role \<in> member_roles i)"

definition isAdmin :: "interaction \<Rightarrow> bool" where
  "isAdmin i = member_admin i"

text \<open>
  The guard \<^verbatim>\<open>if (!isStaff && t.ownerId !== user.id) throw new Error(msg)\<close>, where
  \<^verbatim>\<open>t\<close> may be \<^verbatim>\<open>undefined\<close>: \<^verbatim>\<open>&&\<close> reads \<^verbatim>\<open>t.ownerId\<close> only for a caller
  who is not staff.
\<close>

definition owner_or_staff :: "bool \<Rightarrow> ticket_row option \<Rightarrow> snowflake \<Rightarrow> string \<Rightarrow> unit io" where
  "owner_or_staff staff t uid msg =
     (if staff then ok ()
      else seq (ownerId_of t) (\<lambda>owner.
             if owner \<noteq> uid then throw (Forbidden msg) else ok ()))"

text \<open>
  Posting a transcript to the log channel (lines 443-454 and 494-505): only when the
  configuration names one and the guild's channel collection has it.
\<close>

definition log_transcript :: "env \<Rightarrow> config_row option \<Rightarrow> message \<Rightarrow> unit io" where
  "log_transcript e config m w =
     (case truthy (Option.bind config logChannel) of
        None \<Rightarrow> ok () w
      | Some lc \<Rightarrow> if has_channel w lc then send e lc m w else ok () w)"

text \<open>case 'add' (lines 371-392)\<close>

definition ticket_add :: "env \<Rightarrow> interaction \<Rightarrow> snowflake \<Rightarrow> unit io" where
  "ticket_add e i userToAdd w =
     (let ticket = select_ticket w (channel_id i) in
      if ticket = None \<and> \<not> isStaff w i then throw NotATicketChannel w
      else seq (owner_or_staff (isStaff w i) ticket (user_id (caller i))
                  ''Only ticket owners or staff can add users!'') (\<lambda>_.
           seq (overwrites_edit e (channel_id i) userToAdd) (\<lambda>_.
           seq (insert_or_ignore_member (channel_id i) userToAdd) (\<lambda>_.
           reply e (AddedReply userToAdd)))) w)"

text \<open>case 'remove' (lines 394-412)\<close>

definition ticket_remove :: "env \<Rightarrow> interaction \<Rightarrow> snowflake \<Rightarrow> unit io" where
  "ticket_remove e i userToRemove w =
     (let ticketData = select_ticket w (channel_id i) in
      if ticketData = None \<and> \<not> isStaff w i then throw NotATicketChannel w
      else seq (owner_or_staff (isStaff w i) ticketData (user_id (caller i))
                  ''Only ticket owners or staff can remove users!'') (\<lambda>_.
           seq (ownerId_of ticketData) (\<lambda>owner.
             if userToRemove = owner then throw CannotRemoveOwner
             else seq (overwrites_delete e (channel_id i) userToRemove) (\<lambda>_.
                  seq (delete_member (channel_id i) userToRemove) (\<lambda>_.
                  reply e (RemovedReply userToRemove))))) w)"

text \<open>
  case 'close' (lines 414-459). The condition of line 437 and the loop of lines 436-440
  over the member rows: an \<^verbatim>\<open>await\<close> that throws leaves the loop and the handler.
\<close>

definition loses_access :: "snowflake \<Rightarrow> bool \<Rightarrow> snowflake \<Rightarrow> snowflake \<Rightarrow> bool" where
  "loses_access owner staff uid userId =
     (userId \<noteq> owner \<and> \<not> (staff \<and> userId = uid))"

fun strip_members ::
  "env \<Rightarrow> snowflake \<Rightarrow> snowflake \<Rightarrow> bool \<Rightarrow> snowflake \<Rightarrow> snowflake list \<Rightarrow> unit io" where
  "strip_members e c owner staff uid [] = ok ()"
| "strip_members e c owner staff uid (userId # rest) =
     seq (if loses_access owner staff uid userId
          then overwrites_delete e c userId else ok ())
         (\<lambda>_. strip_members e c owner staff uid rest)"

definition ticket_close :: "env \<Rightarrow> interaction \<Rightarrow> unit io" where
  "ticket_close e i w =
     (case select_ticket w (channel_id i) of
        None \<Rightarrow> throw NotATicketChannel w
      | Some ticketToClose \<Rightarrow>
          if \<not> isStaff w i \<and> ownerId ticketToClose \<noteq> user_id (caller i)
          then throw (Forbidden ''Only ticket owners or staff can close tickets!'') w
          else seq (deferReply e) (\<lambda>_.
               seq (generateTranscript e (channel_id i)) (\<lambda>transcript.
               seq (update_closed e (channel_id i)) (\<lambda>_.
               seq (case truthy (Option.bind (select_config w) closedCategory) of
                      None \<Rightarrow> ok ()
                    | Some cat \<Rightarrow> setParent e (channel_id i) cat) (\<lambda>_.
               seq (\<lambda>w'. strip_members e (channel_id i) (ownerId ticketToClose)
                            (isStaff w i) (user_id (caller i))
                            (select_members w' (channel_id i)) w') (\<lambda>_.
               seq (log_transcript e (select_config w)
                      (ClosedTranscript (channel_id i) (user_tag (caller i)) transcript)) (\<lambda>_.
               editReply e ClosedReply)))))) w)"

text \<open>case 'open' (lines 461-482), with the loop of lines 468-473\<close>

fun regrant_members :: "env \<Rightarrow> snowflake \<Rightarrow> snowflake list \<Rightarrow> unit io" where
  "regrant_members e c [] = ok ()"
| "regrant_members e c (userId # rest) =
     seq (overwrites_edit e c userId) (\<lambda>_. regrant_members e c rest)"

definition ticket_open :: "env \<Rightarrow> interaction \<Rightarrow> unit io" where
  "ticket_open e i w =
     (case select_closed_ticket w (channel_id i) of
        None \<Rightarrow> throw NotClosed w
      | Some closedTicket \<Rightarrow>
          if \<not> isStaff w i then throw (Forbidden ''Only staff can reopen tickets!'') w
          else seq (\<lambda>w'. regrant_members e (channel_id i)
                            (select_members w' (channel_id i)) w') (\<lambda>_.
               seq (update_open (channel_id i)) (\<lambda>_.
               reply e ReopenedReply)) w)"

text \<open>case 'delete' (lines 484-517)\<close>

definition ticket_delete :: "env \<Rightarrow> interaction \<Rightarrow> unit io" where
  "ticket_delete e i w =
     (case select_ticket w (channel_id i) of
        None \<Rightarrow> throw NotATicketChannel w
      | Some ticketToDelete \<Rightarrow>
          if \<not> isStaff w i then throw (Forbidden ''Only staff can delete tickets!'') w
          else seq (deferReply e) (\<lambda>_.
               seq (generateTranscript e (channel_id i)) (\<lambda>deleteTranscript.
               seq (log_transcript e (select_config w)
                      (DeletedTranscript (channel_id i) (user_tag (caller i))
                         deleteTranscript)) (\<lambda>_.
               seq (delete_ticket (channel_id i)) (\<lambda>_.
               seq (delete_members (channel_id i)) (\<lambda>_.
               seq (channel_delete e (channel_id i)) (\<lambda>_.
               editReply e DeletedReply)))))) w)"

text \<open>case 'transcript' (lines 519-535)\<close>

definition ticket_transcript :: "env \<Rightarrow> interaction \<Rightarrow> unit io" where
  "ticket_transcript e i w =
     (case select_ticket w (channel_id i) of
        None \<Rightarrow> throw NotATicketChannel w
      | Some ticketForTranscript \<Rightarrow>
          if \<not> isStaff w i \<and> ownerId ticketForTranscript \<noteq> user_id (caller i)
          then throw (Forbidden ''Only ticket owners or staff can generate transcripts!'') w
          else seq (deferReply e) (\<lambda>_.
               seq (generateTranscript e (channel_id i)) (\<lambda>transcriptFile.
               editReply e (TranscriptReply transcriptFile))) w)"

text \<open>
  The dispatch of line 309. The subcommands \<^verbatim>\<open>setup\<close> and \<^verbatim>\<open>panel\<close>, which write
  the tables \<^verbatim>\<open>config\<close> and \<^verbatim>\<open>panels\<close> for an administrator, are not part of this
  development; \<^verbatim>\<open>isAdmin\<close> is read by them alone. No case catches what an
  \<^verbatim>\<open>await\<close> throws: the error leaves \<^verbatim>\<open>handleSlashCommand\<close>, whose caller
  (lines 287-297) prints it and replies with its message, undoing nothing.
\<close>

definition handleSlashCommand :: "env \<Rightarrow> interaction \<Rightarrow> unit io" where
  "handleSlashCommand e i =
     (case subcommand i of
        Add userToAdd \<Rightarrow> ticket_add e i userToAdd
      | Remove userToRemove \<Rightarrow> ticket_remove e i userToRemove
      | Close \<Rightarrow> ticket_close e i
      | Open \<Rightarrow> ticket_open e i
      | Delete \<Rightarrow> ticket_delete e i
      | Transcript \<Rightarrow> ticket_transcript e i
      | Unknown \<Rightarrow> throw UnknownAction)"

text \<open>The outside calls that went through between two states.\<close>

definition new_calls :: "world \<Rightarrow> world \<Rightarrow> gw_call list" where
  "new_calls w w' = drop (length (trace w)) (trace w')"

text \<open>The permission overwrite of a principal on a channel of the guild.\<close>

definition overwrite_of :: "world \<Rightarrow> snowflake \<Rightarrow> snowflake \<Rightarrow> overwrite option" where
  "overwrite_of w c u =
     (case map_of (guild_channels w) c of
        None \<Rightarrow> None
      | Some ch \<Rightarrow> permissionOverwrites ch u)"

text \<open>
  A principal has been granted a channel when its overwrite allows, and does not deny,
  viewing and sending.
\<close>

definition granted :: "world \<Rightarrow> snowflake \<Rightarrow> snowflake \<Rightarrow> bool" where
  "granted w c u =
     (case overwrite_of w c u of
        None \<Rightarrow> False
      | Some ov \<Rightarrow> {ViewChannel, SendMessages} \<subseteq> allow ov
                 \<and> deny ov \<inter> {ViewChannel, SendMessages} = {})"

text \<open>
  The overwrite of a principal on a channel once line 430-432 has moved the channel: as it
  was when the configuration names no closed category, and as \<^verbatim>\<open>lockPermissions\<close>
  sets it otherwise.
\<close>

definition overwrite_after_move ::
  "world \<Rightarrow> snowflake \<Rightarrow> snowflake option \<Rightarrow> snowflake \<Rightarrow> overwrite option" where
  "overwrite_after_move w c cat v =
     (case cat of
        None \<Rightarrow> overwrite_of w c v
      | Some p \<Rightarrow>
          (case map_of (guild_channels w) c of
             None \<Rightarrow> None
           | Some ch \<Rightarrow> lockPermissions w p ch v))"

text \<open>The parent of a channel of the guild.\<close>

definition parent_of :: "world \<Rightarrow> snowflake \<Rightarrow> snowflake option" where
  "parent_of w c = Option.bind (map_of (guild_channels w) c) ch_parent"

text \<open>Two states with the same tables.\<close>

definition same_store :: "world \<Rightarrow> world \<Rightarrow> bool" where
  "same_store w w' =
     (db_config w' = db_config w \<and> db_tickets w' = db_tickets w
      \<and> db_ticket_members w' = db_ticket_members w \<and> guild_id w' = guild_id w)"

text \<open>Every row of \<^verbatim>\<open>ticket_members\<close> belongs to a row of \<^verbatim>\<open>tickets\<close>.\<close>

definition members_have_tickets :: "world \<Rightarrow> bool" where
  "members_have_tickets w =
     list_all (\<lambda>r. db_tickets w (fst r) \<noteq> None) (db_ticket_members w)"

text \<open>
  The state after the first three steps of a close that passed its checks (lines 420-427):
  the reply deferred, the transcript exported, the row updated.
\<close>

definition closing :: "env \<Rightarrow> snowflake \<Rightarrow> ticket_row \<Rightarrow> world \<Rightarrow> world" where
  "closing e c t w =
     w\<lparr>trace := trace w @ [DeferReply, ExportTranscript c],
       db_tickets := (db_tickets w)(c \<mapsto> t\<lparr>status := StatusClosed, closedAt := Some (now e)\<rparr>)\<rparr>"

text \<open>
  The state of a delete once line 512 has deleted the channel and before the final reply
  of line 513: the rows of lines 508-509 removed, the channel removed, and the calls made
  so far recorded, \<open>xs\<close> being those of the log step (lines 494-505).
\<close>

definition deleted :: "snowflake \<Rightarrow> gw_call list \<Rightarrow> world \<Rightarrow> world" where
  "deleted c xs w =
     w\<lparr>db_tickets := (db_tickets w)(c := None),
       db_ticket_members := filter (\<lambda>r. fst r \<noteq> c) (db_ticket_members w),
       guild_channels := AList.delete c (guild_channels w),
       trace := trace w @ [DeferReply, ExportTranscript c] @ xs @ [DeleteChannel c]\<rparr>"

section \<open>Example states\<close>

text \<open>
  A guild \<open>G\<close> with support role \<open>R\<close>, a closed-tickets category and a log channel; one
  ticket channel \<open>T\<close> owned by \<open>U\<close> with the further members \<open>X\<close> and \<open>Y\<close>; a staff
  member \<open>S\<close>, an administrator \<open>A\<close> without the support role, and the plain member
  \<open>Y\<close>.
\<close>

definition both :: overwrite where
  "both = \<lparr>allow = {ViewChannel, SendMessages}, deny = {}\<rparr>"

definition ex_config :: config_row where
  "ex_config = \<lparr>supportRole = Some ''R'', closedCategory = Some ''CAT'',
                 logChannel = Some ''LOG'', panelColor = None\<rparr>"

definition ex_ticket :: ticket_row where
  "ex_ticket = \<lparr>guildId = ''G'', ownerId = ''U'', panelName = ''support'',
                 status = StatusOpen, createdAt = 100, closedAt = None\<rparr>"

definition ex_channel :: channel where
  "ex_channel = \<lparr>ch_name = ''ticket-alice'', ch_type = GuildText, ch_parent = None,
     permissionOverwrites = [''G'' \<mapsto> \<lparr>allow = {}, deny = {ViewChannel}\<rparr>,
        ''U'' \<mapsto> both, ''R'' \<mapsto> both, ''X'' \<mapsto> both, ''Y'' \<mapsto> both]\<rparr>"

definition ex_category :: channel where
  "ex_category = \<lparr>ch_name = ''closed'', ch_type = GuildCategory, ch_parent = None,
     permissionOverwrites = Map.empty\<rparr>"

definition ex_log :: channel where
  "ex_log = \<lparr>ch_name = ''logs'', ch_type = GuildText, ch_parent = None,
     permissionOverwrites = Map.empty\<rparr>"

definition ex_world :: world where
  "ex_world = \<lparr>db_config = [''G'' \<mapsto> ex_config],
                db_tickets = [''T'' \<mapsto> ex_ticket],
                db_ticket_members = [(''T'', ''U''), (''T'', ''X''), (''T'', ''Y'')],
                guild_id = ''G'',
                guild_channels = [(''T'', ex_channel), (''CAT'', ex_category), (''LOG'', ex_log)],
                trace = []\<rparr>"

definition ex_world_no_log :: world where
  "ex_world_no_log = ex_world\<lparr>guild_channels := [(''T'', ex_channel), (''CAT'', ex_category)]\<rparr>"

definition ex_channel_closed :: channel where
  "ex_channel_closed = \<lparr>ch_name = ''ticket-alice'', ch_type = GuildText,
     ch_parent = Some ''CAT'',
     permissionOverwrites = [''G'' \<mapsto> \<lparr>allow = {}, deny = {ViewChannel}\<rparr>,
        ''U'' \<mapsto> both, ''R'' \<mapsto> both]\<rparr>"

definition ex_world_closed :: world where
  "ex_world_closed =
     ex_world\<lparr>db_tickets := [''T'' \<mapsto> ex_ticket\<lparr>status := StatusClosed, closedAt := Some 150\<rparr>],
              guild_channels :=
                [(''T'', ex_channel_closed), (''CAT'', ex_category), (''LOG'', ex_log)]\<rparr>"

definition ex_world_no_category :: world where
  "ex_world_no_category = ex_world\<lparr>db_config := [''G'' \<mapsto> ex_config\<lparr>closedCategory := None\<rparr>]\<rparr>"

definition ex_world_unconfigured :: world where
  "ex_world_unconfigured = ex_world\<lparr>db_config := Map.empty\<rparr>"

definition ex_env :: env where
  "ex_env = \<lparr>fails = (\<lambda>_. False), now = 200, new_channel_id = ''N''\<rparr>"

definition ex_env_failing :: "gw_call \<Rightarrow> env" where
  "ex_env_failing call = \<lparr>fails = (\<lambda>c. c = call), now = 200, new_channel_id = ''N''\<rparr>"

definition staff_S :: "snowflake \<Rightarrow> subcommand \<Rightarrow> interaction" where
  "staff_S c sub = \<lparr>subcommand = sub, channel_id = c,
       caller = \<lparr>user_id = ''S'', username = ''Sam'', user_tag = ''Sam#1''\<rparr>,
       member_roles = {''R''}, member_admin = False\<rparr>"

definition admin_A :: "snowflake \<Rightarrow> subcommand \<Rightarrow> interaction" where
  "admin_A c sub = \<lparr>subcommand = sub, channel_id = c,
       caller = \<lparr>user_id = ''A'', username = ''Ada'', user_tag = ''Ada#2''\<rparr>,
       member_roles = {}, member_admin = True\<rparr>"

definition member_Y :: "snowflake \<Rightarrow> subcommand \<Rightarrow> interaction" where
  "member_Y c sub = \<lparr>subcommand = sub, channel_id = c,
       caller = \<lparr>user_id = ''Y'', username = ''Yan'', user_tag = ''Yan#3''\<rparr>,
       member_roles = {}, member_admin = False\<rparr>"

definition user_alice :: user where
  "user_alice = \<lparr>user_id = ''U'', username = ''Alice'', user_tag = ''Alice#4''\<rparr>"

definition user_bob :: user where
  "user_bob = \<lparr>user_id = ''B'', username = ''Bob'', user_tag = ''Bob#5''\<rparr>"

section \<open>Lemmas\<close>

subsection \<open>Unfolding the program and the examples\<close>

lemmas program_defs = ok_def throw_def seq_def truthy_def ownerId_of_def has_channel_def outside_def
  on_channel_def grant_def overwrites_edit_def overwrites_delete_def setParent_def
  lockPermissions_def channel_delete_def send_def reply_def deferReply_def editReply_def channels_create_def
  generateTranscript_def select_config_def select_ticket_def select_closed_ticket_def
  select_members_def insert_ticket_def insert_member_def insert_or_ignore_member_def
  delete_member_def delete_members_def delete_ticket_def update_closed_def update_open_def
  toLowerCase_char_def toLowerCase_def ticketName_of_def existingTicket_def
  createTicketChannel_def isStaff_def isAdmin_def owner_or_staff_def log_transcript_def
  ticket_add_def ticket_remove_def loses_access_def ticket_close_def ticket_open_def
  ticket_delete_def ticket_transcript_def handleSlashCommand_def new_calls_def overwrite_of_def
  granted_def parent_of_def members_have_tickets_def overwrite_after_move_def

lemmas example_defs = both_def ex_config_def ex_ticket_def ex_channel_def ex_channel_closed_def
  ex_category_def
  ex_log_def ex_world_def ex_world_no_log_def ex_world_closed_def ex_world_no_category_def
  ex_world_unconfigured_def
  ex_env_def ex_env_failing_def staff_S_def admin_A_def member_Y_def user_alice_def user_bob_def

subsection \<open>What a change of one field leaves alone\<close>

lemma has_channel_trace [simp]: "has_channel (w\<lparr>trace := t\<rparr>) c = has_channel w c"
  by (simp add: has_channel_def)

lemma has_channel_tickets [simp]: "has_channel (w\<lparr>db_tickets := t\<rparr>) c = has_channel w c"
  by (simp add: has_channel_def)

lemma overwrite_of_trace [simp]: "overwrite_of (w\<lparr>trace := t\<rparr>) c u = overwrite_of w c u"
  by (simp add: overwrite_of_def)

lemma overwrite_of_tickets [simp]: "overwrite_of (w\<lparr>db_tickets := t\<rparr>) c u = overwrite_of w c u"
  by (simp add: overwrite_of_def)

lemma parent_of_trace [simp]: "parent_of (w\<lparr>trace := t\<rparr>) c = parent_of w c"
  by (simp add: parent_of_def)

lemma parent_of_tickets [simp]: "parent_of (w\<lparr>db_tickets := t\<rparr>) c = parent_of w c"
  by (simp add: parent_of_def)

lemma select_members_trace [simp]: "select_members (w\<lparr>trace := t\<rparr>) c = select_members w c"
  by (simp add: select_members_def)

lemma select_members_tickets [simp]:
  "select_members (w\<lparr>db_tickets := t\<rparr>) c = select_members w c"
  by (simp add: select_members_def)

lemma select_members_channels [simp]:
  "select_members (w\<lparr>guild_channels := t\<rparr>) c = select_members w c"
  by (simp add: select_members_def)

lemma granted_trace [simp]: "granted (w\<lparr>trace := t\<rparr>) c u = granted w c u"
  by (simp add: granted_def)

lemma granted_tickets [simp]: "granted (w\<lparr>db_tickets := t\<rparr>) c u = granted w c u"
  by (simp add: granted_def)

subsection \<open>States with the same tables\<close>

lemma same_store_refl: "same_store w w"
  by (simp add: same_store_def)

lemma same_store_trans: "same_store w w' \<Longrightarrow> same_store w' w'' \<Longrightarrow> same_store w w''"
  by (simp add: same_store_def)

lemma same_store_members: "same_store w w' \<Longrightarrow> select_members w' c = select_members w c"
  by (simp add: same_store_def select_members_def)

lemma orphan_row:
  "(c, u) \<in> set (db_ticket_members w) \<Longrightarrow> db_tickets w c = None \<Longrightarrow>
     \<not> members_have_tickets w"
  by (force simp: members_have_tickets_def list_all_iff)

subsection \<open>Calls on a channel\<close>

lemma has_channel_map_entry:
  "has_channel (w\<lparr>guild_channels := AList.map_entry c f (guild_channels w)\<rparr>) c'
     = has_channel w c'"
  by (simp add: has_channel_def map_of_map_entry split: option.splits)

lemma overwrite_of_map_entry:
  "overwrite_of (w\<lparr>guild_channels := AList.map_entry c f (guild_channels w)\<rparr>) c' v =
     (case map_of (guild_channels w) c' of
        None \<Rightarrow> None
      | Some ch \<Rightarrow> permissionOverwrites (if c' = c then f ch else ch) v)"
  by (simp add: overwrite_of_def map_of_map_entry split: option.splits)

lemma parent_of_map_entry:
  "parent_of (w\<lparr>guild_channels := AList.map_entry c f (guild_channels w)\<rparr>) c' =
     (case map_of (guild_channels w) c' of
        None \<Rightarrow> None
      | Some ch \<Rightarrow> ch_parent (if c' = c then f ch else ch))"
  by (simp add: parent_of_def map_of_map_entry split: option.splits)

lemma map_entry_ident: "AList.map_entry k (\<lambda>v. v) al = al"
  by (induction al) auto

lemma on_channel_Inl:
  "on_channel e c call f w = (Inl x, w') \<Longrightarrow> x = GatewayError \<and> w' = w"
  by (auto simp: on_channel_def outside_def split: if_splits)

lemma on_channel_Inr:
  "on_channel e c call f w = (Inr x, w') \<Longrightarrow>
     has_channel w c \<and> \<not> fails e call \<and>
     w' = w\<lparr>guild_channels := AList.map_entry c f (guild_channels w),
            trace := trace w @ [call]\<rparr>"
  by (auto simp: on_channel_def outside_def split: if_splits)

lemma on_channel_run:
  "has_channel w c \<Longrightarrow> \<not> fails e call \<Longrightarrow>
     on_channel e c call f w =
       (Inr (), w\<lparr>guild_channels := AList.map_entry c f (guild_channels w),
                  trace := trace w @ [call]\<rparr>)"
  by (simp add: on_channel_def outside_def)

lemma on_channel_fail:
  "\<not> has_channel w c \<or> fails e call \<Longrightarrow> on_channel e c call f w = (Inl GatewayError, w)"
  by (auto simp: on_channel_def outside_def)

lemma on_channel_same_store:
  "on_channel e c call f w = (r, w') \<Longrightarrow> same_store w w'"
  by (cases r) (auto simp: same_store_def dest!: on_channel_Inl on_channel_Inr)

lemma on_channel_has_channel:
  "on_channel e c call f w = (r, w') \<Longrightarrow> has_channel w' c' = has_channel w c'"
  by (cases r) (auto simp: has_channel_map_entry dest!: on_channel_Inl on_channel_Inr)

subsection \<open>Overwrites, parents and messages\<close>

lemma overwrites_delete_Inl:
  "overwrites_delete e c u w = (Inl x, w') \<Longrightarrow> x = GatewayError \<and> w' = w"
  unfolding overwrites_delete_def by (rule on_channel_Inl)

lemma overwrites_edit_Inl:
  "overwrites_edit e c u w = (Inl x, w') \<Longrightarrow> x = GatewayError \<and> w' = w"
  unfolding overwrites_edit_def by (rule on_channel_Inl)

lemma overwrites_delete_overwrite:
  "overwrites_delete e c u w = (Inr x, w') \<Longrightarrow>
     overwrite_of w' c' v = (if c' = c \<and> v = u then None else overwrite_of w c' v)"
  unfolding overwrites_delete_def
  by (drule on_channel_Inr)
     (auto simp: overwrite_of_def map_of_map_entry has_channel_def split: option.splits)

lemma overwrites_edit_overwrite:
  "overwrites_edit e c u w = (Inr x, w') \<Longrightarrow>
     overwrite_of w' c' v =
       (if c' = c \<and> v = u then Some (grant (overwrite_of w c u)) else overwrite_of w c' v)"
  unfolding overwrites_edit_def
  by (drule on_channel_Inr)
     (auto simp: overwrite_of_def map_of_map_entry has_channel_def split: option.splits)

lemma overwrites_delete_parent:
  "overwrites_delete e c u w = (r, w') \<Longrightarrow> parent_of w' c' = parent_of w c'"
  unfolding overwrites_delete_def
  by (cases r)
     (auto simp: parent_of_def map_of_map_entry dest!: on_channel_Inl on_channel_Inr
           split: option.splits)

lemma overwrites_delete_keeps:
  "overwrites_delete e c u w = (r, w') \<Longrightarrow> v \<noteq> u \<or> c' \<noteq> c \<Longrightarrow>
     overwrite_of w' c' v = overwrite_of w c' v"
  by (cases r) (auto dest: overwrites_delete_Inl simp: overwrites_delete_overwrite)

lemma overwrites_delete_None:
  "overwrites_delete e c u w = (r, w') \<Longrightarrow> overwrite_of w c' v = None \<Longrightarrow>
     overwrite_of w' c' v = None"
  by (cases r) (auto dest: overwrites_delete_Inl simp: overwrites_delete_overwrite)

lemma granted_grant:
  "overwrite_of w c u = Some (grant x) \<Longrightarrow> granted w c u"
  by (auto simp: granted_def grant_def split: option.splits)

lemma overwrites_edit_granted:
  assumes "overwrites_edit e c u w = (r, w')" and "granted w c' v"
  shows "granted w' c' v"
proof (cases r)
  case (Inl x)
  with assms show ?thesis by (auto dest: overwrites_edit_Inl)
next
  case (Inr y)
  with assms(1) have ow: "overwrite_of w' c' v =
       (if c' = c \<and> v = u then Some (grant (overwrite_of w c u)) else overwrite_of w c' v)"
    by (simp add: overwrites_edit_overwrite)
  show ?thesis
  proof (cases "c' = c \<and> v = u")
    case True
    with ow show ?thesis by (auto intro: granted_grant)
  next
    case False
    with ow assms(2) show ?thesis by (simp add: granted_def)
  qed
qed

lemma send_run:
  "has_channel w c \<Longrightarrow> \<not> fails e (SendMessage c m) \<Longrightarrow>
     send e c m w = (Inr (), w\<lparr>trace := trace w @ [SendMessage c m]\<rparr>)"
  by (simp add: send_def on_channel_run map_entry_ident)

lemma send_Inr: "send e c m w = (Inr x, w') \<Longrightarrow> w' = w\<lparr>trace := trace w @ [SendMessage c m]\<rparr>"
  unfolding send_def by (drule on_channel_Inr) (simp add: map_entry_ident)

lemma log_transcript_run:
  "\<forall>lc. \<not> fails e (SendMessage lc m) \<Longrightarrow>
     log_transcript e cfg m w =
       (Inr (), w\<lparr>trace := trace w @
          (case truthy (Option.bind cfg logChannel) of
             None \<Rightarrow> []
           | Some lc \<Rightarrow> if has_channel w lc then [SendMessage lc m] else [])\<rparr>)"
  by (simp add: log_transcript_def ok_def send_run split: option.splits)

lemma log_transcript_Inr:
  "log_transcript e cfg m w = (Inr x, w') \<Longrightarrow> \<exists>xs. w' = w\<lparr>trace := trace w @ xs\<rparr>"
proof -
  assume run: "log_transcript e cfg m w = (Inr x, w')"
  then consider "w' = w" | lc where "w' = w\<lparr>trace := trace w @ [SendMessage lc m]\<rparr>"
    by (auto simp: log_transcript_def ok_def split: option.splits if_splits dest: send_Inr)
  then show ?thesis
  proof cases
    case 1
    then have "w' = w\<lparr>trace := trace w @ []\<rparr>" by simp
    then show ?thesis by blast
  next
    case 2
    then show ?thesis by blast
  qed
qed

lemma setParent_run:
  "has_channel w c \<Longrightarrow> \<not> fails e (SetParent c p) \<Longrightarrow>
     setParent e c p w =
       (Inr (), w\<lparr>guild_channels :=
                    AList.map_entry c
                      (\<lambda>ch. ch\<lparr>ch_parent := Some p,
                               permissionOverwrites := lockPermissions w p ch\<rparr>)
                      (guild_channels w),
                  trace := trace w @ [SetParent c p]\<rparr>)"
  unfolding setParent_def by (rule on_channel_run)

lemma setParent_Inl: "setParent e c p w = (Inl x, w') \<Longrightarrow> x = GatewayError \<and> w' = w"
  unfolding setParent_def by (rule on_channel_Inl)

lemma setParent_Inr:
  "setParent e c p w = (Inr x, w') \<Longrightarrow>
     w' = w\<lparr>guild_channels :=
                    AList.map_entry c
                      (\<lambda>ch. ch\<lparr>ch_parent := Some p,
                               permissionOverwrites := lockPermissions w p ch\<rparr>)
                      (guild_channels w),
                  trace := trace w @ [SetParent c p]\<rparr>"
  unfolding setParent_def by (drule on_channel_Inr) simp

lemma overwrite_of_entry:
  "overwrite_of (w\<lparr>guild_channels := AList.map_entry c f al\<rparr>) c v =
     (case map_of al c of None \<Rightarrow> None | Some ch \<Rightarrow> permissionOverwrites (f ch) v)"
  by (simp add: overwrite_of_def map_of_map_entry split: option.splits)

lemma lockPermissions_closing [simp]:
  "lockPermissions (closing e c t w) p ch = lockPermissions w p ch"
  by (simp add: lockPermissions_def closing_def)

lemma parent_of_setParent:
  "has_channel w c \<Longrightarrow>
     parent_of (w\<lparr>guild_channels :=
                    AList.map_entry c
                      (\<lambda>ch. ch\<lparr>ch_parent := Some p, permissionOverwrites := f ch\<rparr>)
                      (guild_channels w)\<rparr>) c
       = Some p"
  by (auto simp: parent_of_map_entry has_channel_def)

lemma overwrites_delete_Inr_trace:
  "overwrites_delete e c u w = (Inr x, w') \<Longrightarrow> trace w' = trace w @ [DeleteOverwrite c u]"
  unfolding overwrites_delete_def by (drule on_channel_Inr) simp

subsection \<open>The loop of close\<close>

lemma strip_members_rel:
  assumes run: "strip_members e c owner staff uid us w = (r, w')"
    and refl: "\<And>w. P w w"
    and trans: "\<And>w w' w''. P w w' \<Longrightarrow> P w' w'' \<Longrightarrow> P w w''"
    and step: "\<And>u w r w'. u \<in> set us \<Longrightarrow> loses_access owner staff uid u \<Longrightarrow>
                 overwrites_delete e c u w = (r, w') \<Longrightarrow> P w w'"
  shows "P w w'"
  using run step
proof (induction us arbitrary: w)
  case Nil
  then show ?case by (simp add: ok_def refl)
next
  case (Cons u us)
  have step': "P w w'" if "u' \<in> set us" "loses_access owner staff uid u'"
      "overwrites_delete e c u' w = (r, w')" for u' w r w'
    using that by (intro Cons.prems(2) [of u']) simp_all
  show ?case
  proof (cases "loses_access owner staff uid u")
    case False
    with Cons.prems(1) have "strip_members e c owner staff uid us w = (r, w')"
      by (simp add: seq_def ok_def)
    then show ?thesis using step' by (rule Cons.IH)
  next
    case True
    obtain r1 w1 where s1: "overwrites_delete e c u w = (r1, w1)" by fastforce
    have p1: "P w w1" using Cons.prems(2) [OF _ True s1] by simp
    show ?thesis
    proof (cases r1)
      case (Inl x)
      with Cons.prems(1) True s1 have "w' = w1" by (simp add: seq_def)
      with p1 show ?thesis by simp
    next
      case (Inr y)
      with Cons.prems(1) True s1 have "strip_members e c owner staff uid us w1 = (r, w')"
        by (simp add: seq_def)
      then have "P w1 w'" using step' by (rule Cons.IH)
      with p1 show ?thesis by (rule trans)
    qed
  qed
qed

lemma strip_members_same_store:
  "strip_members e c owner staff uid us w = (r, w') \<Longrightarrow> same_store w w'"
  by (erule strip_members_rel [where P = same_store])
     (auto simp: overwrites_delete_def intro: same_store_refl same_store_trans on_channel_same_store)

lemma strip_members_has_channel:
  "strip_members e c owner staff uid us w = (r, w') \<Longrightarrow> has_channel w' c' = has_channel w c'"
  by (erule strip_members_rel [where P = "\<lambda>w w'. has_channel w' c' = has_channel w c'"])
     (auto simp: overwrites_delete_def dest: on_channel_has_channel)

lemma strip_members_parent:
  "strip_members e c owner staff uid us w = (r, w') \<Longrightarrow> parent_of w' c' = parent_of w c'"
  by (erule strip_members_rel [where P = "\<lambda>w w'. parent_of w' c' = parent_of w c'"])
     (auto dest: overwrites_delete_parent)

lemma strip_members_keeps:
  assumes "strip_members e c owner staff uid us w = (r, w')"
    and "c' \<noteq> c \<or> v \<notin> set us \<or> \<not> loses_access owner staff uid v"
  shows "overwrite_of w' c' v = overwrite_of w c' v"
  using assms(1)
proof (rule strip_members_rel [where P = "\<lambda>w w'. overwrite_of w' c' v = overwrite_of w c' v"])
  fix u w r w'
  assume "u \<in> set us" "loses_access owner staff uid u" "overwrites_delete e c u w = (r, w')"
  with assms(2) show "overwrite_of w' c' v = overwrite_of w c' v"
    by (auto intro: overwrites_delete_keeps)
qed simp_all

lemma strip_members_None:
  "strip_members e c owner staff uid us w = (r, w') \<Longrightarrow> overwrite_of w c' v = None \<Longrightarrow>
     overwrite_of w' c' v = None"
  by (erule strip_members_rel
        [where P = "\<lambda>w w'. overwrite_of w c' v = None \<longrightarrow> overwrite_of w' c' v = None",
         THEN mp])
     (auto dest: overwrites_delete_None)

lemma strip_members_stripped:
  "strip_members e c owner staff uid us w = (Inr x, w') \<Longrightarrow> v \<in> set us \<Longrightarrow>
     loses_access owner staff uid v \<Longrightarrow> overwrite_of w' c v = None"
proof (induction us arbitrary: w)
  case Nil
  then show ?case by simp
next
  case (Cons u us)
  obtain r1 w1 where s1:
    "(if loses_access owner staff uid u then overwrites_delete e c u else ok ()) w = (r1, w1)"
    by fastforce
  with Cons.prems(1) obtain y where r1: "r1 = Inr y"
    and rest: "strip_members e c owner staff uid us w1 = (Inr x, w')"
    by (cases r1) (auto simp: seq_def)
  show ?case
  proof (cases "v = u")
    case True
    with s1 r1 Cons.prems(3) have "overwrite_of w1 c v = None"
      by (simp add: overwrites_delete_overwrite)
    with rest show ?thesis by (rule strip_members_None)
  next
    case False
    with Cons.prems(2) have "v \<in> set us" by simp
    with rest show ?thesis using Cons.prems(3) by (rule Cons.IH)
  qed
qed

lemma strip_members_run:
  "has_channel w c \<Longrightarrow>
   \<forall>u\<in>set us. loses_access owner staff uid u \<longrightarrow> \<not> fails e (DeleteOverwrite c u) \<Longrightarrow>
   fst (strip_members e c owner staff uid us w) = Inr ()"
proof (induction us arbitrary: w)
  case Nil
  then show ?case by (simp add: ok_def)
next
  case (Cons u us)
  show ?case
  proof (cases "loses_access owner staff uid u")
    case False
    with Cons show ?thesis by (simp add: seq_def ok_def)
  next
    case True
    with Cons.prems have nf: "\<not> fails e (DeleteOverwrite c u)" by simp
    let ?w1 = "w\<lparr>guild_channels := AList.map_entry c
                   (\<lambda>ch. ch\<lparr>permissionOverwrites := (permissionOverwrites ch)(u := None)\<rparr>)
                   (guild_channels w),
                 trace := trace w @ [DeleteOverwrite c u]\<rparr>"
    have s1: "overwrites_delete e c u w = (Inr (), ?w1)"
      unfolding overwrites_delete_def using Cons.prems(1) nf by (rule on_channel_run)
    have "has_channel ?w1 c" using Cons.prems(1) by (simp add: has_channel_map_entry)
    then have "fst (strip_members e c owner staff uid us ?w1) = Inr ()"
      using Cons.prems(2) by (intro Cons.IH) simp_all
    with True s1 show ?thesis by (simp add: seq_def)
  qed
qed

lemma strip_members_trace_run:
  "has_channel w c \<Longrightarrow>
   \<forall>u\<in>set us. loses_access owner staff uid u \<longrightarrow> \<not> fails e (DeleteOverwrite c u) \<Longrightarrow>
   trace (snd (strip_members e c owner staff uid us w)) =
     trace w @ map (DeleteOverwrite c) (filter (loses_access owner staff uid) us)"
proof (induction us arbitrary: w)
  case Nil
  then show ?case by (simp add: ok_def)
next
  case (Cons u us)
  show ?case
  proof (cases "loses_access owner staff uid u")
    case False
    with Cons show ?thesis by (simp add: seq_def ok_def)
  next
    case True
    with Cons.prems have nf: "\<not> fails e (DeleteOverwrite c u)" by simp
    let ?w1 = "w\<lparr>guild_channels := AList.map_entry c
                   (\<lambda>ch. ch\<lparr>permissionOverwrites := (permissionOverwrites ch)(u := None)\<rparr>)
                   (guild_channels w),
                 trace := trace w @ [DeleteOverwrite c u]\<rparr>"
    have s1: "overwrites_delete e c u w = (Inr (), ?w1)"
      unfolding overwrites_delete_def using Cons.prems(1) nf by (rule on_channel_run)
    have "has_channel ?w1 c" using Cons.prems(1) by (simp add: has_channel_map_entry)
    then have "trace (snd (strip_members e c owner staff uid us ?w1)) =
        trace ?w1 @ map (DeleteOverwrite c) (filter (loses_access owner staff uid) us)"
      using Cons.prems(2) by (intro Cons.IH) simp_all
    with True s1 show ?thesis by (simp add: seq_def)
  qed
qed

lemma strip_members_abort:
  assumes "loses_access owner staff uid u" and "fails e (DeleteOverwrite c u)"
    and "strip_members e c owner staff uid (pre @ u # post) w = (r, w')"
  shows "r = Inl GatewayError \<and> (v \<notin> set pre \<longrightarrow> overwrite_of w' c' v = overwrite_of w c' v)"
  using assms(3)
proof (induction pre arbitrary: w)
  case Nil
  have "overwrites_delete e c u w = (Inl GatewayError, w)"
    unfolding overwrites_delete_def using assms(2) by (simp add: on_channel_fail)
  with Nil assms(1) show ?case by (simp add: seq_def)
next
  case (Cons p pre)
  obtain r1 w1 where s1:
    "(if loses_access owner staff uid p then overwrites_delete e c p else ok ()) w = (r1, w1)"
    by fastforce
  show ?case
  proof (cases r1)
    case (Inl x)
    with s1 have "x = GatewayError \<and> w1 = w"
      by (auto simp: ok_def split: if_splits dest: overwrites_delete_Inl)
    with Cons.prems s1 Inl show ?thesis by (simp add: seq_def)
  next
    case (Inr y)
    with Cons.prems s1 have rest: "strip_members e c owner staff uid (pre @ u # post) w1 = (r, w')"
      by (simp add: seq_def)
    have keep: "v \<noteq> p \<longrightarrow> overwrite_of w1 c' v = overwrite_of w c' v"
      using s1 by (auto simp: ok_def split: if_splits intro: overwrites_delete_keeps)
    from Cons.IH [OF rest] keep show ?thesis by auto
  qed
qed

lemma ticket_close_unfold:
  assumes "select_ticket w (channel_id i) = Some t"
    and "isStaff w i \<or> ownerId t = user_id (caller i)"
    and "\<not> fails e DeferReply" and "\<not> fails e (ExportTranscript (channel_id i))"
  shows "ticket_close e i w =
     seq (case truthy (Option.bind (select_config w) closedCategory) of
            None \<Rightarrow> ok ()
          | Some cat \<Rightarrow> setParent e (channel_id i) cat) (\<lambda>_.
     seq (\<lambda>w'. strip_members e (channel_id i) (ownerId t) (isStaff w i) (user_id (caller i))
                  (select_members w' (channel_id i)) w') (\<lambda>_.
     seq (log_transcript e (select_config w)
            (ClosedTranscript (channel_id i) (user_tag (caller i))
               (TranscriptOf (channel_id i)))) (\<lambda>_.
     editReply e ClosedReply))) (closing e (channel_id i) t w)"
  using assms
  by (auto simp: ticket_close_def closing_def seq_def deferReply_def outside_def
        generateTranscript_def update_closed_def select_ticket_def)

lemma strip_members_abort_calls:
  assumes "loses_access owner staff uid u" and "fails e (DeleteOverwrite c u)"
    and "strip_members e c owner staff uid (pre @ u # post) w = (r, w')"
  shows "\<exists>xs. trace w' = trace w @ xs
           \<and> set xs \<subseteq> DeleteOverwrite c ` {v \<in> set pre. loses_access owner staff uid v}"
  using assms(3)
proof (induction pre arbitrary: w)
  case Nil
  have "overwrites_delete e c u w = (Inl GatewayError, w)"
    unfolding overwrites_delete_def using assms(2) by (simp add: on_channel_fail)
  with Nil assms(1) have "w' = w" by (simp add: seq_def)
  then show ?case by simp
next
  case (Cons p pre)
  obtain r1 w1 where s1:
    "(if loses_access owner staff uid p then overwrites_delete e c p else ok ()) w = (r1, w1)"
    by fastforce
  show ?case
  proof (cases r1)
    case (Inl x)
    with s1 have "w1 = w"
      by (auto simp: ok_def split: if_splits dest: overwrites_delete_Inl)
    with Cons.prems s1 Inl have "w' = w" by (simp add: seq_def)
    then show ?thesis by simp
  next
    case (Inr y)
    with Cons.prems s1 have rest: "strip_members e c owner staff uid (pre @ u # post) w1 = (r, w')"
      by (simp add: seq_def)
    from Cons.IH [OF rest] obtain xs where xs: "trace w' = trace w1 @ xs"
      "set xs \<subseteq> DeleteOverwrite c ` {v \<in> set pre. loses_access owner staff uid v}"
      by blast
    have "trace w1 = trace w @ (if loses_access owner staff uid p then [DeleteOverwrite c p] else [])"
      using s1 Inr by (auto simp: ok_def split: if_splits dest: overwrites_delete_Inr_trace)
    with xs have "trace w' = trace w @
        ((if loses_access owner staff uid p then [DeleteOverwrite c p] else []) @ xs)"
      by simp
    moreover have "set ((if loses_access owner staff uid p then [DeleteOverwrite c p] else []) @ xs)
        \<subseteq> DeleteOverwrite c ` {v \<in> set (p # pre). loses_access owner staff uid v}"
      using xs(2) by auto
    ultimately show ?thesis by blast
  qed
qed

subsection \<open>The loop of open\<close>

lemma regrant_members_rel:
  assumes run: "regrant_members e c us w = (r, w')"
    and refl: "\<And>w. P w w"
    and trans: "\<And>w w' w''. P w w' \<Longrightarrow> P w' w'' \<Longrightarrow> P w w''"
    and step: "\<And>u w r w'. u \<in> set us \<Longrightarrow> overwrites_edit e c u w = (r, w') \<Longrightarrow> P w w'"
  shows "P w w'"
  using run step
proof (induction us arbitrary: w)
  case Nil
  then show ?case by (simp add: ok_def refl)
next
  case (Cons u us)
  have step': "P w w'" if "u' \<in> set us" "overwrites_edit e c u' w = (r, w')" for u' w r w'
    using that by (intro Cons.prems(2) [of u']) simp_all
  obtain r1 w1 where s1: "overwrites_edit e c u w = (r1, w1)" by fastforce
  have p1: "P w w1" using Cons.prems(2) [OF _ s1] by simp
  show ?case
  proof (cases r1)
    case (Inl x)
    with Cons.prems(1) s1 have "w' = w1" by (simp add: seq_def)
    with p1 show ?thesis by simp
  next
    case (Inr y)
    with Cons.prems(1) s1 have "regrant_members e c us w1 = (r, w')"
      by (simp add: seq_def)
    then have "P w1 w'" using step' by (rule Cons.IH)
    with p1 show ?thesis by (rule trans)
  qed
qed

lemma regrant_members_same_store:
  "regrant_members e c us w = (r, w') \<Longrightarrow> same_store w w'"
  by (erule regrant_members_rel [where P = same_store])
     (auto simp: overwrites_edit_def intro: same_store_refl same_store_trans on_channel_same_store)

lemma regrant_members_granted_mono:
  "regrant_members e c us w = (r, w') \<Longrightarrow> granted w c' v \<Longrightarrow> granted w' c' v"
  by (erule regrant_members_rel
        [where P = "\<lambda>w w'. granted w c' v \<longrightarrow> granted w' c' v", THEN mp])
     (auto dest: overwrites_edit_granted)

lemma regrant_members_granted:
  "regrant_members e c us w = (Inr x, w') \<Longrightarrow> v \<in> set us \<Longrightarrow> granted w' c v"
proof (induction us arbitrary: w)
  case Nil
  then show ?case by simp
next
  case (Cons u us)
  obtain r1 w1 where s1: "overwrites_edit e c u w = (r1, w1)" by fastforce
  with Cons.prems(1) obtain y where r1: "r1 = Inr y"
    and rest: "regrant_members e c us w1 = (Inr x, w')"
    by (cases r1) (auto simp: seq_def)
  show ?case
  proof (cases "v = u")
    case True
    from s1 r1 have "overwrite_of w1 c u = Some (grant (overwrite_of w c u))"
      by (simp add: overwrites_edit_overwrite)
    then have "granted w1 c u" by (rule granted_grant)
    with rest True show ?thesis by (auto intro: regrant_members_granted_mono)
  next
    case False
    with Cons.prems(2) have "v \<in> set us" by simp
    with rest show ?thesis by (rule Cons.IH)
  qed
qed

lemma regrant_members_run:
  "has_channel w c \<Longrightarrow> \<forall>u\<in>set us. \<not> fails e (EditOverwrite c u) \<Longrightarrow>
   fst (regrant_members e c us w) = Inr ()"
proof (induction us arbitrary: w)
  case Nil
  then show ?case by (simp add: ok_def)
next
  case (Cons u us)
  from Cons.prems have nf: "\<not> fails e (EditOverwrite c u)" by simp
  let ?w1 = "w\<lparr>guild_channels := AList.map_entry c
                 (\<lambda>ch. ch\<lparr>permissionOverwrites :=
                          (permissionOverwrites ch)(u \<mapsto> grant (permissionOverwrites ch u))\<rparr>)
                 (guild_channels w),
               trace := trace w @ [EditOverwrite c u]\<rparr>"
  have s1: "overwrites_edit e c u w = (Inr (), ?w1)"
    unfolding overwrites_edit_def using Cons.prems(1) nf by (rule on_channel_run)
  have "has_channel ?w1 c" using Cons.prems(1) by (simp add: has_channel_map_entry)
  then have "fst (regrant_members e c us ?w1) = Inr ()"
    using Cons.prems(2) by (intro Cons.IH) simp_all
  with s1 show ?case by (simp add: seq_def)
qed

subsection \<open>The steps of delete\<close>

lemma ticket_delete_unfold:
  assumes "select_ticket w (channel_id i) = Some t" and "isStaff w i"
    and "\<not> fails e DeferReply" and "\<not> fails e (ExportTranscript (channel_id i))"
  shows "ticket_delete e i w =
     seq (log_transcript e (select_config w)
            (DeletedTranscript (channel_id i) (user_tag (caller i))
               (TranscriptOf (channel_id i)))) (\<lambda>_.
     seq (delete_ticket (channel_id i)) (\<lambda>_.
     seq (delete_members (channel_id i)) (\<lambda>_.
     seq (channel_delete e (channel_id i)) (\<lambda>_.
     editReply e DeletedReply))))
       (w\<lparr>trace := trace w @ [DeferReply, ExportTranscript (channel_id i)]\<rparr>)"
  using assms
  by (auto simp: ticket_delete_def seq_def deferReply_def outside_def generateTranscript_def)

lemma ticket_delete_after_log:
  "seq (delete_ticket c) (\<lambda>_.
   seq (delete_members c) (\<lambda>_.
   seq (channel_delete e c) (\<lambda>_.
   editReply e DeletedReply))) (w\<lparr>trace := trace w @ [DeferReply, ExportTranscript c] @ xs\<rparr>) =
   (if \<not> has_channel w c \<or> fails e (DeleteChannel c)
    then (Inl GatewayError,
          w\<lparr>db_tickets := (db_tickets w)(c := None),
            db_ticket_members := filter (\<lambda>r. fst r \<noteq> c) (db_ticket_members w),
            trace := trace w @ [DeferReply, ExportTranscript c] @ xs\<rparr>)
    else if fails e (EditReply DeletedReply) then (Inl GatewayError, deleted c xs w)
    else (Inr (), (deleted c xs w)\<lparr>trace := trace (deleted c xs w) @ [EditReply DeletedReply]\<rparr>))"
  by (simp add: seq_def delete_ticket_def delete_members_def channel_delete_def outside_def
        editReply_def deleted_def has_channel_def)

lemma deleted_gone:
  "select_ticket (deleted c xs w) c = None"
  "select_members (deleted c xs w) c = []"
  "\<not> has_channel (deleted c xs w) c"
  "new_calls w (deleted c xs w) = [DeferReply, ExportTranscript c] @ xs @ [DeleteChannel c]"
  by (simp_all add: deleted_def select_ticket_def select_members_def has_channel_def
        delete_conv' new_calls_def filter_empty_conv)

section \<open>The claims\<close>

text \<open>
  Claim C1. Let the channel of the interaction have a ticket row, let the caller be staff
  or the owner of the ticket, let the guild have the channel, and let no outside call be
  rejected. Then \<^verbatim>\<open>close\<close> returns normally and its outside calls are, in this order:
  the deferred reply, the export of the transcript, the move under the closed category
  when the configuration names one, one deletion of the permission overwrite for each
  member row that is neither the owner nor the closing staff member, the transcript
  message to the log channel when the configuration names one and the guild's channel
  collection has it, and the final reply; no call deletes the channel, which the guild
  still has. The row has \<open>status = closed\<close> and \<open>closedAt = now\<close>, and the overwrite of
  each such member is gone. The overwrite of every other principal, the owner among them,
  is what the move of line 431 has left: as it was when no closed category is configured,
  and that of the category once the channel has been moved under one. Line 437 spares the
  owner in the loop, but the move has replaced the owner's overwrite before the loop
  starts, so the owner keeps access only where the category grants it.
\<close>

theorem close_effects:
  assumes sub: "subcommand i = Close"
    and tick: "select_ticket w (channel_id i) = Some t"
    and auth: "isStaff w i \<or> ownerId t = user_id (caller i)"
    and chan: "has_channel w (channel_id i)"
    and nofail: "\<forall>call. \<not> fails e call"
  shows "fst (handleSlashCommand e i w) = Inr ()
    \<and> new_calls w (snd (handleSlashCommand e i w)) =
        [DeferReply, ExportTranscript (channel_id i)]
        @ (case truthy (Option.bind (select_config w) closedCategory) of
             None \<Rightarrow> [] | Some cat \<Rightarrow> [SetParent (channel_id i) cat])
        @ map (DeleteOverwrite (channel_id i))
            (filter (loses_access (ownerId t) (isStaff w i) (user_id (caller i)))
               (select_members w (channel_id i)))
        @ (case truthy (Option.bind (select_config w) logChannel) of
             None \<Rightarrow> []
           | Some lc \<Rightarrow>
               if has_channel w lc
               then [SendMessage lc (ClosedTranscript (channel_id i) (user_tag (caller i))
                                       (TranscriptOf (channel_id i)))]
               else [])
        @ [EditReply ClosedReply]
    \<and> select_ticket (snd (handleSlashCommand e i w)) (channel_id i) =
        Some (t\<lparr>status := StatusClosed, closedAt := Some (now e)\<rparr>)
    \<and> (\<forall>cat. truthy (Option.bind (select_config w) closedCategory) = Some cat \<longrightarrow>
          parent_of (snd (handleSlashCommand e i w)) (channel_id i) = Some cat)
    \<and> (\<forall>u\<in>set (select_members w (channel_id i)).
          loses_access (ownerId t) (isStaff w i) (user_id (caller i)) u \<longrightarrow>
          overwrite_of (snd (handleSlashCommand e i w)) (channel_id i) u = None)
    \<and> (\<forall>u. \<not> loses_access (ownerId t) (isStaff w i) (user_id (caller i)) u \<longrightarrow>
          overwrite_of (snd (handleSlashCommand e i w)) (channel_id i) u =
          overwrite_after_move w (channel_id i)
            (truthy (Option.bind (select_config w) closedCategory)) u)
    \<and> has_channel (snd (handleSlashCommand e i w)) (channel_id i)"
proof -
  let ?c = "channel_id i"
  let ?lose = "loses_access (ownerId t) (isStaff w i) (user_id (caller i))"
  let ?w0 = "closing e ?c t w"
  let ?catstep = "case truthy (Option.bind (select_config w) closedCategory) of
      None \<Rightarrow> ok () | Some cat \<Rightarrow> setParent e ?c cat"
  let ?msg = "ClosedTranscript ?c (user_tag (caller i)) (TranscriptOf ?c)"
  let ?logcalls = "case truthy (Option.bind (select_config w) logChannel) of
             None \<Rightarrow> []
           | Some lc \<Rightarrow> if has_channel w lc then [SendMessage lc ?msg] else []"
  have chan0: "has_channel ?w0 ?c" using chan by (simp add: closing_def)
  obtain w1 where s1: "?catstep ?w0 = (Inr (), w1)"
    and tr1: "trace w1 = trace ?w0 @ (case truthy (Option.bind (select_config w) closedCategory) of
             None \<Rightarrow> [] | Some cat \<Rightarrow> [SetParent ?c cat])"
    and st1: "same_store ?w0 w1"
    and hc1: "\<And>c'. has_channel w1 c' = has_channel w c'"
    and ow1: "\<And>v. overwrite_of w1 ?c v =
                overwrite_after_move w ?c (truthy (Option.bind (select_config w) closedCategory)) v"
    and pa1: "\<And>cat. truthy (Option.bind (select_config w) closedCategory) = Some cat \<Longrightarrow>
                parent_of w1 ?c = Some cat"
  proof (cases "truthy (Option.bind (select_config w) closedCategory)")
    case None
    show ?thesis
      by (rule that [of ?w0])
         (simp_all add: None ok_def same_store_refl closing_def overwrite_after_move_def)
  next
    case (Some cat)
    let ?w1 = "?w0\<lparr>guild_channels :=
                    AList.map_entry ?c
                      (\<lambda>ch. ch\<lparr>ch_parent := Some cat,
                               permissionOverwrites := lockPermissions ?w0 cat ch\<rparr>)
                      (guild_channels ?w0),
                  trace := trace ?w0 @ [SetParent ?c cat]\<rparr>"
    have run: "setParent e ?c cat ?w0 = (Inr (), ?w1)"
      using chan0 nofail by (simp add: setParent_run)
    show ?thesis
    proof (rule that [of ?w1])
      show "?catstep ?w0 = (Inr (), ?w1)" using run by (simp add: Some)
      show "same_store ?w0 ?w1" by (simp add: same_store_def)
      show "has_channel ?w1 c' = has_channel w c'" for c'
        using on_channel_has_channel [of e ?c "SetParent ?c cat" _ ?w0 "Inr ()" ?w1 c'] run
        by (simp add: setParent_def closing_def)
      show "overwrite_of ?w1 ?c v = overwrite_after_move w ?c
              (truthy (Option.bind (select_config w) closedCategory)) v" for v
        by (simp add: Some overwrite_of_entry overwrite_after_move_def)
           (simp add: closing_def split: option.splits)
      show "parent_of ?w1 ?c = Some cat'"
        if "truthy (Option.bind (select_config w) closedCategory) = Some cat'" for cat'
        using that Some chan0 by (simp add: parent_of_setParent)
    qed (simp add: Some)
  qed
  have mem1: "select_members w1 ?c = select_members w ?c"
    using st1 by (simp add: same_store_def select_members_def closing_def)
  obtain r2 w2 where loop:
    "strip_members e ?c (ownerId t) (isStaff w i) (user_id (caller i)) (select_members w ?c) w1
       = (r2, w2)"
    by fastforce
  have chan1: "has_channel w1 ?c" using chan by (simp add: hc1)
  have nf: "\<forall>u\<in>set (select_members w ?c). ?lose u \<longrightarrow> \<not> fails e (DeleteOverwrite ?c u)"
    using nofail by simp
  have r2: "r2 = Inr ()"
    using strip_members_run [OF chan1 nf] loop by simp
  have tr2: "trace w2 = trace w1 @ map (DeleteOverwrite ?c) (filter ?lose (select_members w ?c))"
    using strip_members_trace_run [OF chan1 nf] loop by simp
  have st2: "same_store w1 w2" using loop by (rule strip_members_same_store)
  have hc2: "has_channel w2 c' = has_channel w c'" for c'
    using strip_members_has_channel [OF loop, of c'] by (simp add: hc1)
  have pa2: "parent_of w2 c' = parent_of w1 c'" for c'
    using loop by (rule strip_members_parent)
  let ?w3 = "w2\<lparr>trace := trace w2 @ ?logcalls\<rparr>"
  have s3: "log_transcript e (select_config w) ?msg w2 = (Inr (), ?w3)"
    using nofail by (simp add: log_transcript_run hc2 split: option.splits)
  let ?w4 = "?w3\<lparr>trace := trace ?w3 @ [EditReply ClosedReply]\<rparr>"
  have s4: "editReply e ClosedReply ?w3 = (Inr (), ?w4)"
    using nofail by (simp add: editReply_def outside_def)
  have run: "handleSlashCommand e i w = (Inr (), ?w4)"
    using nofail s1 loop r2 s3 s4
    by (simp add: handleSlashCommand_def sub ticket_close_unfold [OF tick auth] seq_def mem1)
  have calls: "new_calls w ?w4 =
        [DeferReply, ExportTranscript ?c]
        @ (case truthy (Option.bind (select_config w) closedCategory) of
             None \<Rightarrow> [] | Some cat \<Rightarrow> [SetParent ?c cat])
        @ map (DeleteOverwrite ?c) (filter ?lose (select_members w ?c))
        @ ?logcalls @ [EditReply ClosedReply]"
    by (simp add: new_calls_def tr2 tr1 closing_def)
  have row: "select_ticket ?w4 ?c = Some (t\<lparr>status := StatusClosed, closedAt := Some (now e)\<rparr>)"
    using st1 st2 by (simp add: select_ticket_def same_store_def closing_def)
  have par: "parent_of ?w4 ?c = Some cat"
    if "truthy (Option.bind (select_config w) closedCategory) = Some cat" for cat
    using pa1 [OF that] by (simp add: pa2)
  have gone: "overwrite_of ?w4 ?c u = None"
    if "u \<in> set (select_members w ?c)" "?lose u" for u
    using strip_members_stripped [OF loop [unfolded r2] that] by simp
  have kept: "overwrite_of ?w4 ?c u = overwrite_after_move w ?c
        (truthy (Option.bind (select_config w) closedCategory)) u" if "\<not> ?lose u" for u
    using strip_members_keeps [OF loop, of ?c u] that by (simp add: ow1)
  show ?thesis
    unfolding run fst_conv snd_conv
    using calls row par gone kept hc2 [of ?c] chan by (intro conjI) auto
qed

text \<open>
  Claim C1, at the failing input: the staff member \<open>S\<close> closes the ticket \<open>T\<close> of \<open>U\<close>
  with the members \<open>U\<close>, \<open>X\<close>, \<open>Y\<close>; the closed category has no overwrite for \<open>U\<close>. Before,
  \<open>U\<close> was granted the channel; after, \<open>U\<close> has no overwrite on it.
\<close>

theorem close_effects_witness:
  "subcommand (staff_S ''T'' Close) = Close
   \<and> select_ticket ex_world ''T'' = Some ex_ticket
   \<and> isStaff ex_world (staff_S ''T'' Close)
   \<and> has_channel ex_world ''T''
   \<and> fst (handleSlashCommand ex_env (staff_S ''T'' Close) ex_world) = Inr ()
   \<and> new_calls ex_world (snd (handleSlashCommand ex_env (staff_S ''T'' Close) ex_world)) =
       [DeferReply, ExportTranscript ''T'', SetParent ''T'' ''CAT'',
        DeleteOverwrite ''T'' ''X'', DeleteOverwrite ''T'' ''Y'',
        SendMessage ''LOG'' (ClosedTranscript ''T'' ''Sam#1'' (TranscriptOf ''T'')),
        EditReply ClosedReply]
   \<and> select_ticket (snd (handleSlashCommand ex_env (staff_S ''T'' Close) ex_world)) ''T'' =
       Some (ex_ticket\<lparr>status := StatusClosed, closedAt := Some 200\<rparr>)
   \<and> parent_of (snd (handleSlashCommand ex_env (staff_S ''T'' Close) ex_world)) ''T'' = Some ''CAT''
   \<and> overwrite_of (snd (handleSlashCommand ex_env (staff_S ''T'' Close) ex_world)) ''T'' ''X'' = None
   \<and> truthy (Option.bind (select_config ex_world) closedCategory) = Some ''CAT''
   \<and> map_of (guild_channels ex_world) ''CAT'' = Some ex_category
   \<and> ch_type ex_category = GuildCategory
   \<and> permissionOverwrites ex_category ''U'' = None
   \<and> overwrite_of ex_world ''T'' ''U'' = Some both
   \<and> granted ex_world ''T'' ''U''
   \<and> overwrite_of (snd (handleSlashCommand ex_env (staff_S ''T'' Close) ex_world)) ''T'' ''U'' = None
   \<and> \<not> granted (snd (handleSlashCommand ex_env (staff_S ''T'' Close) ex_world)) ''T'' ''U''
   \<and> has_channel (snd (handleSlashCommand ex_env (staff_S ''T'' Close) ex_world)) ''T''"
proof -
  let ?i = "staff_S ''T'' Close"
  have h1: "subcommand ?i = Close" by (simp add: staff_S_def)
  have h2: "select_ticket ex_world (channel_id ?i) = Some ex_ticket"
    by (simp add: program_defs example_defs)
  have h3: "isStaff ex_world ?i \<or> ownerId ex_ticket = user_id (caller ?i)"
    by (simp add: program_defs example_defs)
  have h4: "has_channel ex_world (channel_id ?i)" by (simp add: program_defs example_defs)
  have h5: "\<forall>call. \<not> fails ex_env call" by (simp add: ex_env_def)
  have c: "channel_id ?i = ''T''" by (simp add: staff_S_def)
  have s: "isStaff ex_world ?i" by (simp add: program_defs example_defs)
  have m: "select_members ex_world ''T'' = [''U'', ''X'', ''Y'']"
    by (simp add: program_defs example_defs)
  have cat: "truthy (Option.bind (select_config ex_world) closedCategory) = Some ''CAT''"
    by (simp add: program_defs example_defs)
  have lg: "truthy (Option.bind (select_config ex_world) logChannel) = Some ''LOG''"
    by (simp add: program_defs example_defs)
  have lc: "has_channel ex_world ''LOG''" by (simp add: program_defs example_defs)
  have o: "ownerId ex_ticket = ''U''" "user_id (caller ?i) = ''S''" "user_tag (caller ?i) = ''Sam#1''"
    "now ex_env = 200" "overwrite_of ex_world ''T'' ''U'' = Some both"
    "map_of (guild_channels ex_world) ''CAT'' = Some ex_category"
    "ch_type ex_category = GuildCategory" "permissionOverwrites ex_category ''U'' = None"
    "granted ex_world ''T'' ''U''"
    "overwrite_after_move ex_world ''T'' (Some ''CAT'') ''U'' = None"
    by (simp_all add: program_defs example_defs)
  from close_effects [OF h1 h2 h3 h4 h5] h1 h2 h4 s
  show ?thesis
    unfolding c by (simp add: m cat lg lc o loses_access_def granted_def both_def)
qed

text \<open>
  Claim C2. \<^verbatim>\<open>open\<close> never sets the status: whoever calls it and whatever the state,
  the tables are afterwards as they were, and the command does not return normally. For a
  staff caller on a closed ticket, when the guild has the channel and no edit of a member's
  overwrite is rejected, every member row is granted the channel and the command then
  fails at line 476, the row still closed. Where the channel has no closed ticket the
  command fails with \<open>NotClosed\<close> and the state stays as it was.
\<close>

theorem reopen_never_sets_open:
  assumes sub: "subcommand i = Open"
  shows "same_store w (snd (handleSlashCommand e i w))
    \<and> fst (handleSlashCommand e i w) \<noteq> Inr ()
    \<and> (\<forall>t. select_ticket w (channel_id i) = Some t \<and> status t = StatusClosed
          \<and> isStaff w i \<and> has_channel w (channel_id i)
          \<and> (\<forall>u\<in>set (select_members w (channel_id i)).
                \<not> fails e (EditOverwrite (channel_id i) u)) \<longrightarrow>
            fst (handleSlashCommand e i w) = Inl SyntaxError
          \<and> (\<forall>u\<in>set (select_members w (channel_id i)).
               granted (snd (handleSlashCommand e i w)) (channel_id i) u)
          \<and> select_ticket (snd (handleSlashCommand e i w)) (channel_id i) = Some t)
    \<and> (select_closed_ticket w (channel_id i) = None \<longrightarrow>
          handleSlashCommand e i w = (Inl NotClosed, w))"
proof -
  let ?c = "channel_id i"
  have hs: "handleSlashCommand e i w = ticket_open e i w"
    using sub by (simp add: handleSlashCommand_def)
  obtain r1 w1 where loop: "regrant_members e ?c (select_members w ?c) w = (r1, w1)"
    by fastforce
  have st1: "same_store w w1" using loop by (rule regrant_members_same_store)
  have cases: "handleSlashCommand e i w = (Inl NotClosed, w)
      \<or> handleSlashCommand e i w = (Inl (Forbidden ''Only staff can reopen tickets!''), w)
      \<or> (\<exists>x. handleSlashCommand e i w = (Inl x, w1))"
    using loop
    by (cases r1)
       (auto simp: hs ticket_open_def throw_def seq_def update_open_def split: option.splits)
  have a: "same_store w (snd (handleSlashCommand e i w))"
    using cases st1 by (auto simp: same_store_refl)
  have b: "fst (handleSlashCommand e i w) \<noteq> Inr ()"
    using cases by auto
  have c: "fst (handleSlashCommand e i w) = Inl SyntaxError
          \<and> (\<forall>u\<in>set (select_members w ?c). granted (snd (handleSlashCommand e i w)) ?c u)
          \<and> select_ticket (snd (handleSlashCommand e i w)) ?c = Some t"
    if tick: "select_ticket w ?c = Some t" and st: "status t = StatusClosed"
      and staff: "isStaff w i" and ch: "has_channel w ?c"
      and nf: "\<forall>u\<in>set (select_members w ?c). \<not> fails e (EditOverwrite ?c u)" for t
  proof -
    have r1: "r1 = Inr ()" using regrant_members_run [OF ch nf] loop by simp
    have run: "handleSlashCommand e i w = (Inl SyntaxError, w1)"
      using tick st staff loop r1
      by (simp add: hs ticket_open_def select_closed_ticket_def select_ticket_def seq_def
            update_open_def throw_def)
    have gr: "granted w1 ?c u" if "u \<in> set (select_members w ?c)" for u
      using loop [unfolded r1] that by (rule regrant_members_granted)
    show ?thesis
      using gr st1 tick by (simp add: run same_store_def select_ticket_def)
  qed
  have d: "handleSlashCommand e i w = (Inl NotClosed, w)"
    if "select_closed_ticket w ?c = None"
    using that by (simp add: hs ticket_open_def throw_def)
  from a b c d show ?thesis by blast
qed

text \<open>
  Claim C2, at the failing input: the staff member \<open>S\<close> reopens the closed ticket \<open>T\<close>,
  whose members \<open>X\<close> and \<open>Y\<close> had lost their overwrites; they are granted the channel again
  and the row stays closed. On the open ticket \<open>S\<close> gets \<open>NotClosed\<close>.
\<close>

theorem reopen_never_sets_open_witness:
  "subcommand (staff_S ''T'' Open) = Open
   \<and> select_ticket ex_world_closed ''T'' =
       Some (ex_ticket\<lparr>status := StatusClosed, closedAt := Some 150\<rparr>)
   \<and> isStaff ex_world_closed (staff_S ''T'' Open)
   \<and> has_channel ex_world_closed ''T''
   \<and> select_members ex_world_closed ''T'' = [''U'', ''X'', ''Y'']
   \<and> \<not> granted ex_world_closed ''T'' ''X''
   \<and> fst (handleSlashCommand ex_env (staff_S ''T'' Open) ex_world_closed) = Inl SyntaxError
   \<and> granted (snd (handleSlashCommand ex_env (staff_S ''T'' Open) ex_world_closed)) ''T'' ''X''
   \<and> granted (snd (handleSlashCommand ex_env (staff_S ''T'' Open) ex_world_closed)) ''T'' ''Y''
   \<and> select_ticket (snd (handleSlashCommand ex_env (staff_S ''T'' Open) ex_world_closed)) ''T'' =
       Some (ex_ticket\<lparr>status := StatusClosed, closedAt := Some 150\<rparr>)
   \<and> select_closed_ticket ex_world ''T'' = None
   \<and> handleSlashCommand ex_env (staff_S ''T'' Open) ex_world = (Inl NotClosed, ex_world)"
proof -
  let ?i = "staff_S ''T'' Open"
  let ?t = "ex_ticket\<lparr>status := StatusClosed, closedAt := Some 150\<rparr>"
  have c: "channel_id ?i = ''T''" by (simp add: staff_S_def)
  have h1: "subcommand ?i = Open" by (simp add: staff_S_def)
  have h2: "select_ticket ex_world_closed ''T'' = Some ?t"
    by (simp add: program_defs example_defs)
  have h3: "isStaff ex_world_closed ?i" by (simp add: program_defs example_defs)
  have h4: "has_channel ex_world_closed ''T''" by (simp add: program_defs example_defs)
  have h5: "select_members ex_world_closed ''T'' = [''U'', ''X'', ''Y'']"
    by (simp add: program_defs example_defs)
  have h6: "\<not> granted ex_world_closed ''T'' ''X''" by (simp add: program_defs example_defs)
  have h7: "\<not> fails ex_env call" for call by (simp add: ex_env_def)
  have k1: "select_closed_ticket ex_world ''T'' = None"
    by (simp add: program_defs example_defs)
  have st: "status ?t = StatusClosed" by (simp add: ex_ticket_def)
  from reopen_never_sets_open [OF h1, of ex_world_closed ex_env]
    reopen_never_sets_open [OF h1, of ex_world ex_env]
    h1 h2 h3 h4 h5 h6 k1
  show ?thesis unfolding c by (simp add: h7 st)
qed

text \<open>
  Claim C3. \<^verbatim>\<open>createTicketChannel\<close> fails with \<open>NotConfigured\<close> when the configuration
  is missing or has no support role, with \<open>DuplicateTicket\<close> when a text channel of the
  ticket's name exists, and with \<open>GatewayError\<close> when the creation of the channel is
  rejected; whenever it fails with one of the three, the state is the one it started from:
  no row is written and no channel is created. Whenever a row has been written, the channel
  had been created before.
\<close>

theorem create_failure_writes_nothing:
  "(truthy (Option.bind (select_config w) supportRole) = None \<longrightarrow>
      createTicketChannel e u p w = (Inl NotConfigured, w))
 \<and> (truthy (Option.bind (select_config w) supportRole) \<noteq> None \<and>
      existingTicket w (ticketName_of u) \<noteq> None \<longrightarrow>
      createTicketChannel e u p w = (Inl DuplicateTicket, w))
 \<and> (truthy (Option.bind (select_config w) supportRole) \<noteq> None \<and>
      existingTicket w (ticketName_of u) = None \<and> fails e (CreateChannel (ticketName_of u)) \<longrightarrow>
      createTicketChannel e u p w = (Inl GatewayError, w))
 \<and> (fst (createTicketChannel e u p w)
        \<in> {Inl NotConfigured, Inl DuplicateTicket, Inl GatewayError} \<longrightarrow>
      snd (createTicketChannel e u p w) = w)
 \<and> (db_tickets (snd (createTicketChannel e u p w)) \<noteq> db_tickets w \<or>
    db_ticket_members (snd (createTicketChannel e u p w)) \<noteq> db_ticket_members w \<longrightarrow>
      new_calls w (snd (createTicketChannel e u p w)) = [CreateChannel (ticketName_of u)]
      \<and> has_channel (snd (createTicketChannel e u p w)) (new_channel_id e))"
  by (auto simp: createTicketChannel_def throw_def seq_def ok_def channels_create_def outside_def
        insert_ticket_def insert_member_def new_calls_def has_channel_def update_conv' Let_def
        split: option.splits if_splits)

text \<open>
  Claim C3, witness: a guild without configuration; \<open>Alice\<close>, whose ticket channel exists;
  \<open>Bob\<close> when the creation of the channel is rejected; and \<open>Bob\<close> when it goes through.
\<close>

theorem create_failure_writes_nothing_witness:
  "truthy (Option.bind (select_config ex_world_unconfigured) supportRole) = None
   \<and> createTicketChannel ex_env user_bob ''support'' ex_world_unconfigured =
       (Inl NotConfigured, ex_world_unconfigured)
   \<and> truthy (Option.bind (select_config ex_world) supportRole) = Some ''R''
   \<and> existingTicket ex_world (ticketName_of user_alice) = Some (''T'', ex_channel)
   \<and> createTicketChannel ex_env user_alice ''support'' ex_world = (Inl DuplicateTicket, ex_world)
   \<and> existingTicket ex_world (ticketName_of user_bob) = None
   \<and> fails (ex_env_failing (CreateChannel ''ticket-bob'')) (CreateChannel (ticketName_of user_bob))
   \<and> createTicketChannel (ex_env_failing (CreateChannel ''ticket-bob'')) user_bob ''support''
         ex_world = (Inl GatewayError, ex_world)
   \<and> db_ticket_members (snd (createTicketChannel ex_env user_bob ''support'' ex_world)) =
       [(''T'', ''U''), (''T'', ''X''), (''T'', ''Y''), (''N'', ''B'')]
   \<and> new_calls ex_world (snd (createTicketChannel ex_env user_bob ''support'' ex_world)) =
       [CreateChannel ''ticket-bob'']
   \<and> has_channel (snd (createTicketChannel ex_env user_bob ''support'' ex_world)) ''N''"
proof -
  have n: "truthy (Option.bind (select_config ex_world_unconfigured) supportRole) = None"
    by (simp add: program_defs example_defs)
  have r: "truthy (Option.bind (select_config ex_world) supportRole) = Some ''R''"
    by (simp add: program_defs example_defs)
  have a: "existingTicket ex_world (ticketName_of user_alice) = Some (''T'', ex_channel)"
    by (simp add: program_defs example_defs)
  have b: "existingTicket ex_world (ticketName_of user_bob) = None"
    by (simp add: program_defs example_defs)
  have f: "fails (ex_env_failing (CreateChannel ''ticket-bob''))
             (CreateChannel (ticketName_of user_bob))"
    by (simp add: program_defs example_defs)
  have m: "db_ticket_members (snd (createTicketChannel ex_env user_bob ''support'' ex_world)) =
       [(''T'', ''U''), (''T'', ''X''), (''T'', ''Y''), (''N'', ''B'')]"
    by (simp add: program_defs example_defs Let_def)
  have m0: "db_ticket_members ex_world = [(''T'', ''U''), (''T'', ''X''), (''T'', ''Y'')]"
    by (simp add: ex_world_def)
  have nm: "ticketName_of user_bob = ''ticket-bob''" "new_channel_id ex_env = ''N''"
    by (simp_all add: program_defs example_defs)
  from create_failure_writes_nothing
         [where w = ex_world_unconfigured and e = ex_env and u = user_bob and p = "''support''"]
       create_failure_writes_nothing
         [where w = ex_world and e = ex_env and u = user_alice and p = "''support''"]
       create_failure_writes_nothing
         [where w = ex_world and e = "ex_env_failing (CreateChannel ''ticket-bob'')"
            and u = user_bob and p = "''support''"]
       create_failure_writes_nothing
         [where w = ex_world and e = ex_env and u = user_bob and p = "''support''"]
       n r a b f m
  show ?thesis by (simp add: m0 nm)
qed

text \<open>
  Claim C4, as amended. Let a close have passed its checks, deferred its reply and exported
  the transcript, and let the deletion of the overwrite of a member \<open>u\<close> that loses access
  be rejected. Then the close fails with a gateway error, and the row, updated before the
  loop, keeps \<open>status = closed\<close> and \<open>closedAt = now\<close>. After the deferred reply and the
  export, the only outside calls made are the move under the closed category and
  deletions of overwrites of members that come before \<open>u\<close>: the loop does not go on to the
  members after \<open>u\<close>, no transcript is posted to the log channel, and no final reply is
  sent. The overwrite of a principal that no member row before \<open>u\<close> names is as it was
  before the close, or as the move has left it.
\<close>

theorem close_strip_failure:
  assumes sub: "subcommand i = Close"
    and tick: "select_ticket w (channel_id i) = Some t"
    and auth: "isStaff w i \<or> ownerId t = user_id (caller i)"
    and nd: "\<not> fails e DeferReply"
    and nx: "\<not> fails e (ExportTranscript (channel_id i))"
    and mem: "select_members w (channel_id i) = pre @ u # post"
    and lose: "loses_access (ownerId t) (isStaff w i) (user_id (caller i)) u"
    and fail: "fails e (DeleteOverwrite (channel_id i) u)"
  shows "fst (handleSlashCommand e i w) = Inl GatewayError
    \<and> select_ticket (snd (handleSlashCommand e i w)) (channel_id i) =
        Some (t\<lparr>status := StatusClosed, closedAt := Some (now e)\<rparr>)
    \<and> (\<exists>rest. new_calls w (snd (handleSlashCommand e i w)) =
            [DeferReply, ExportTranscript (channel_id i)] @ rest
          \<and> set rest \<subseteq>
              (case truthy (Option.bind (select_config w) closedCategory) of
                 None \<Rightarrow> {} | Some cat \<Rightarrow> {SetParent (channel_id i) cat})
              \<union> DeleteOverwrite (channel_id i) `
                  {v \<in> set pre. loses_access (ownerId t) (isStaff w i) (user_id (caller i)) v})
    \<and> (\<forall>v. v \<notin> set pre \<longrightarrow>
          overwrite_of (snd (handleSlashCommand e i w)) (channel_id i) v =
            overwrite_of w (channel_id i) v
        \<or> overwrite_of (snd (handleSlashCommand e i w)) (channel_id i) v =
            overwrite_after_move w (channel_id i)
              (truthy (Option.bind (select_config w) closedCategory)) v)"
proof -
  let ?c = "channel_id i"
  let ?w0 = "closing e ?c t w"
  let ?cat = "truthy (Option.bind (select_config w) closedCategory)"
  let ?lose = "loses_access (ownerId t) (isStaff w i) (user_id (caller i))"
  let ?catstep = "case ?cat of None \<Rightarrow> ok () | Some cat \<Rightarrow> setParent e ?c cat"
  let ?catcalls = "case ?cat of None \<Rightarrow> {} | Some cat \<Rightarrow> {SetParent ?c cat}"
  let ?row = "Some (t\<lparr>status := StatusClosed, closedAt := Some (now e)\<rparr>)"
  have unfold: "handleSlashCommand e i w =
     seq ?catstep (\<lambda>_.
     seq (\<lambda>w'. strip_members e ?c (ownerId t) (isStaff w i) (user_id (caller i))
                  (select_members w' ?c) w') (\<lambda>_.
     seq (log_transcript e (select_config w)
            (ClosedTranscript ?c (user_tag (caller i)) (TranscriptOf ?c))) (\<lambda>_.
     editReply e ClosedReply))) ?w0"
    by (simp add: handleSlashCommand_def sub ticket_close_unfold [OF tick auth nd nx])
  have row0: "select_ticket ?w0 ?c = ?row" by (simp add: closing_def select_ticket_def)
  have ow0: "overwrite_of ?w0 ?c v = overwrite_of w ?c v" for v by (simp add: closing_def)
  have mem0: "select_members ?w0 ?c = select_members w ?c" by (simp add: closing_def)
  have tr0: "trace ?w0 = trace w @ [DeferReply, ExportTranscript ?c]" by (simp add: closing_def)
  obtain r1 w1 where s1: "?catstep ?w0 = (r1, w1)" by fastforce
  have step: "same_store ?w0 w1
      \<and> (\<exists>ys. trace w1 = trace ?w0 @ ys \<and> set ys \<subseteq> ?catcalls)
      \<and> (\<forall>v. overwrite_of w1 ?c v = overwrite_of w ?c v
             \<or> overwrite_of w1 ?c v = overwrite_after_move w ?c ?cat v)
      \<and> (\<forall>x. r1 = Inl x \<longrightarrow> x = GatewayError)"
  proof (cases ?cat)
    case None
    with s1 have "w1 = ?w0" "r1 = Inr ()" by (simp_all add: ok_def)
    then show ?thesis by (simp add: same_store_refl None ow0)
  next
    case (Some cat)
    with s1 have sp: "setParent e ?c cat ?w0 = (r1, w1)" by simp
    show ?thesis
    proof (cases r1)
      case (Inl x)
      with sp have "x = GatewayError" "w1 = ?w0" by (auto dest: setParent_Inl)
      with Inl show ?thesis by (simp add: same_store_refl ow0)
    next
      case (Inr y)
      with sp have w1: "w1 = ?w0\<lparr>guild_channels :=
            AList.map_entry ?c
              (\<lambda>ch. ch\<lparr>ch_parent := Some cat,
                       permissionOverwrites := lockPermissions ?w0 cat ch\<rparr>)
              (guild_channels ?w0),
            trace := trace ?w0 @ [SetParent ?c cat]\<rparr>"
        by (auto dest: setParent_Inr)
      have "overwrite_of w1 ?c v = overwrite_after_move w ?c ?cat v" for v
        unfolding w1
        by (simp add: Some overwrite_of_entry overwrite_after_move_def)
           (simp add: closing_def split: option.splits)
      moreover have "same_store ?w0 w1" unfolding w1 by (simp add: same_store_def)
      moreover have "trace w1 = trace ?w0 @ [SetParent ?c cat]" unfolding w1 by simp
      ultimately show ?thesis using Inr Some by auto
    qed
  qed
  then obtain ys where st1: "same_store ?w0 w1"
    and tr1: "trace w1 = trace ?w0 @ ys" and ys: "set ys \<subseteq> ?catcalls"
    and ow1: "\<And>v. overwrite_of w1 ?c v = overwrite_of w ?c v
             \<or> overwrite_of w1 ?c v = overwrite_after_move w ?c ?cat v"
    and e1: "\<And>x. r1 = Inl x \<Longrightarrow> x = GatewayError"
    by blast
  show ?thesis
  proof (cases r1)
    case (Inl x)
    with s1 e1 have run: "handleSlashCommand e i w = (Inl GatewayError, w1)"
      by (simp add: unfold seq_def)
    have calls: "new_calls w w1 = [DeferReply, ExportTranscript ?c] @ ys"
      by (simp add: new_calls_def tr1 tr0)
    have "set ys \<subseteq> ?catcalls \<union> DeleteOverwrite ?c ` {v \<in> set pre. ?lose v}"
      using ys by blast
    with calls st1 row0 ow1 show ?thesis
      unfolding run fst_conv snd_conv
      by (intro conjI exI [of _ ys]) (simp_all add: same_store_def select_ticket_def)
  next
    case (Inr y)
    have mem1: "select_members w1 ?c = pre @ u # post"
      using same_store_members [OF st1, of ?c] mem0 mem by simp
    obtain r2 w2 where loop:
      "strip_members e ?c (ownerId t) (isStaff w i) (user_id (caller i)) (pre @ u # post) w1
         = (r2, w2)"
      by fastforce
    have r2: "r2 = Inl GatewayError"
      and ow2: "\<And>v. v \<notin> set pre \<Longrightarrow> overwrite_of w2 ?c v = overwrite_of w1 ?c v"
      using strip_members_abort [OF lose fail loop] by auto
    obtain xs where tr2: "trace w2 = trace w1 @ xs"
      and xs: "set xs \<subseteq> DeleteOverwrite ?c ` {v \<in> set pre. ?lose v}"
      using strip_members_abort_calls [OF lose fail loop] by blast
    have st2: "same_store w1 w2" using loop by (rule strip_members_same_store)
    have run: "handleSlashCommand e i w = (Inl GatewayError, w2)"
      using s1 Inr loop r2 by (simp add: unfold seq_def mem1)
    have calls: "new_calls w w2 = [DeferReply, ExportTranscript ?c] @ (ys @ xs)"
      by (simp add: new_calls_def tr2 tr1 tr0)
    have sub': "set (ys @ xs) \<subseteq> ?catcalls \<union> DeleteOverwrite ?c ` {v \<in> set pre. ?lose v}"
      using ys xs by auto
    have ow: "overwrite_of w2 ?c v = overwrite_of w ?c v
        \<or> overwrite_of w2 ?c v = overwrite_after_move w ?c ?cat v" if "v \<notin> set pre" for v
      using ow2 [OF that] ow1 [of v] by simp
    from calls sub' st1 st2 row0 ow show ?thesis
      unfolding run fst_conv snd_conv
      by (intro conjI exI [of _ "ys @ xs"]) (simp_all add: same_store_def select_ticket_def)
  qed
qed

text \<open>
  Claim C4, witness: the staff member \<open>S\<close> closes \<open>T\<close> while the deletion of the overwrite
  of \<open>X\<close> is rejected.
\<close>

theorem close_strip_failure_witness:
  "subcommand (staff_S ''T'' Close) = Close
   \<and> select_ticket ex_world ''T'' = Some ex_ticket
   \<and> isStaff ex_world (staff_S ''T'' Close)
   \<and> select_members ex_world ''T'' = [''U''] @ ''X'' # [''Y'']
   \<and> loses_access (ownerId ex_ticket) True ''S'' ''X''
   \<and> fails (ex_env_failing (DeleteOverwrite ''T'' ''X'')) (DeleteOverwrite ''T'' ''X'')
   \<and> fst (handleSlashCommand (ex_env_failing (DeleteOverwrite ''T'' ''X'')) (staff_S ''T'' Close)
            ex_world) = Inl GatewayError
   \<and> select_ticket (snd (handleSlashCommand (ex_env_failing (DeleteOverwrite ''T'' ''X''))
            (staff_S ''T'' Close) ex_world)) ''T'' =
       Some (ex_ticket\<lparr>status := StatusClosed, closedAt := Some 200\<rparr>)
   \<and> new_calls ex_world (snd (handleSlashCommand (ex_env_failing (DeleteOverwrite ''T'' ''X''))
            (staff_S ''T'' Close) ex_world)) =
       [DeferReply, ExportTranscript ''T'', SetParent ''T'' ''CAT'']"
proof -
  let ?i = "staff_S ''T'' Close"
  let ?e = "ex_env_failing (DeleteOverwrite ''T'' ''X'')"
  have c: "channel_id ?i = ''T''" by (simp add: staff_S_def)
  have h1: "subcommand ?i = Close" by (simp add: staff_S_def)
  have h2: "select_ticket ex_world (channel_id ?i) = Some ex_ticket"
    by (simp add: program_defs example_defs)
  have s: "isStaff ex_world ?i" by (simp add: program_defs example_defs)
  then have h3: "isStaff ex_world ?i \<or> ownerId ex_ticket = user_id (caller ?i)" by simp
  have h4: "\<not> fails ?e DeferReply" by (simp add: ex_env_failing_def)
  have h5: "\<not> fails ?e (ExportTranscript (channel_id ?i))" by (simp add: ex_env_failing_def)
  have h6: "select_members ex_world (channel_id ?i) = [''U''] @ ''X'' # [''Y'']"
    by (simp add: program_defs example_defs)
  have h7: "loses_access (ownerId ex_ticket) (isStaff ex_world ?i) (user_id (caller ?i)) ''X''"
    using s by (simp add: loses_access_def ex_ticket_def staff_S_def)
  have h8: "fails ?e (DeleteOverwrite (channel_id ?i) ''X'')"
    by (simp add: ex_env_failing_def staff_S_def)
  have o: "now ?e = 200" "user_id (caller ?i) = ''S''"
    by (simp_all add: program_defs example_defs)
  have calls: "new_calls ex_world (snd (handleSlashCommand ?e ?i ex_world)) =
       [DeferReply, ExportTranscript ''T'', SetParent ''T'' ''CAT'']"
    by (simp add: program_defs example_defs)
  from close_strip_failure [OF h1 h2 h3 h4 h5 h6 h7 h8] h1 h2 s h6 h7 h8 calls
  show ?thesis unfolding c by (simp add: o)
qed

text \<open>
  Claim C4, counterexample: with the member rows \<open>U\<close>, \<open>X\<close>, \<open>Y\<close> and only the deletion of
  the overwrite of \<open>X\<close> rejected, the close fails and the last call made is the move: the
  deletion for \<open>Y\<close>, who would lose access, is never issued. Where no closed category is
  configured, so that nothing is moved, \<open>Y\<close> is still granted the channel afterwards.
\<close>

theorem close_strip_counterexample:
  "subcommand (staff_S ''T'' Close) = Close
   \<and> isStaff ex_world (staff_S ''T'' Close)
   \<and> isStaff ex_world_no_category (staff_S ''T'' Close)
   \<and> select_members ex_world ''T'' = [''U'', ''X'', ''Y'']
   \<and> select_members ex_world_no_category ''T'' = [''U'', ''X'', ''Y'']
   \<and> loses_access ''U'' True ''S'' ''X'' \<and> loses_access ''U'' True ''S'' ''Y''
   \<and> fst (handleSlashCommand (ex_env_failing (DeleteOverwrite ''T'' ''X'')) (staff_S ''T'' Close)
            ex_world) = Inl GatewayError
   \<and> trace (snd (handleSlashCommand (ex_env_failing (DeleteOverwrite ''T'' ''X''))
            (staff_S ''T'' Close) ex_world)) =
       [DeferReply, ExportTranscript ''T'', SetParent ''T'' ''CAT'']
   \<and> fst (handleSlashCommand (ex_env_failing (DeleteOverwrite ''T'' ''X'')) (staff_S ''T'' Close)
            ex_world_no_category) = Inl GatewayError
   \<and> trace (snd (handleSlashCommand (ex_env_failing (DeleteOverwrite ''T'' ''X''))
            (staff_S ''T'' Close) ex_world_no_category)) =
       [DeferReply, ExportTranscript ''T'']
   \<and> granted (snd (handleSlashCommand (ex_env_failing (DeleteOverwrite ''T'' ''X''))
            (staff_S ''T'' Close) ex_world_no_category)) ''T'' ''Y''"
  by (simp add: program_defs example_defs)

text \<open>
  Claim C5, as amended. Let the channel have a ticket row, the caller be staff and the
  reply be deferred. When the export of the transcript is rejected, \<^verbatim>\<open>delete\<close> fails
  with that error and has changed nothing but the deferred reply: no row and no channel is
  removed. When the export and the posting to the log channel are not rejected, the export
  comes first, then the posting to the log channel when the configuration names one that
  the guild has, then the ticket row and its member rows are removed, and then the channel
  is deleted: when that deletion goes through, rows and channel are gone; when it is
  rejected, the command fails, the rows are gone already and the channels of the guild
  are as they were.
\<close>

theorem delete_needs_export:
  assumes sub: "subcommand i = Delete"
    and tick: "select_ticket w (channel_id i) = Some t"
    and staff: "isStaff w i"
    and nd: "\<not> fails e DeferReply"
  shows "(fails e (ExportTranscript (channel_id i)) \<longrightarrow>
            handleSlashCommand e i w = (Inl ExportError, w\<lparr>trace := trace w @ [DeferReply]\<rparr>))
       \<and> (\<not> fails e (ExportTranscript (channel_id i))
          \<and> (\<forall>lc m. \<not> fails e (SendMessage lc m))
          \<and> has_channel w (channel_id i) \<and> \<not> fails e (DeleteChannel (channel_id i)) \<longrightarrow>
            select_ticket (snd (handleSlashCommand e i w)) (channel_id i) = None
          \<and> select_members (snd (handleSlashCommand e i w)) (channel_id i) = []
          \<and> \<not> has_channel (snd (handleSlashCommand e i w)) (channel_id i)
          \<and> new_calls w (snd (handleSlashCommand e i w)) =
              [DeferReply, ExportTranscript (channel_id i)]
              @ (case truthy (Option.bind (select_config w) logChannel) of
                   None \<Rightarrow> []
                 | Some lc \<Rightarrow>
                     if has_channel w lc
                     then [SendMessage lc (DeletedTranscript (channel_id i)
                             (user_tag (caller i)) (TranscriptOf (channel_id i)))]
                     else [])
              @ [DeleteChannel (channel_id i)]
              @ (if fails e (EditReply DeletedReply) then [] else [EditReply DeletedReply])
          \<and> fst (handleSlashCommand e i w) =
              (if fails e (EditReply DeletedReply) then Inl GatewayError else Inr ()))
       \<and> (\<not> fails e (ExportTranscript (channel_id i))
          \<and> (\<forall>lc m. \<not> fails e (SendMessage lc m))
          \<and> fails e (DeleteChannel (channel_id i)) \<longrightarrow>
            fst (handleSlashCommand e i w) = Inl GatewayError
          \<and> select_ticket (snd (handleSlashCommand e i w)) (channel_id i) = None
          \<and> select_members (snd (handleSlashCommand e i w)) (channel_id i) = []
          \<and> guild_channels (snd (handleSlashCommand e i w)) = guild_channels w
          \<and> new_calls w (snd (handleSlashCommand e i w)) =
              [DeferReply, ExportTranscript (channel_id i)]
              @ (case truthy (Option.bind (select_config w) logChannel) of
                   None \<Rightarrow> []
                 | Some lc \<Rightarrow>
                     if has_channel w lc
                     then [SendMessage lc (DeletedTranscript (channel_id i)
                             (user_tag (caller i)) (TranscriptOf (channel_id i)))]
                     else []))"
proof -
  let ?c = "channel_id i"
  let ?msg = "DeletedTranscript ?c (user_tag (caller i)) (TranscriptOf ?c)"
  let ?logcalls = "case truthy (Option.bind (select_config w) logChannel) of
                   None \<Rightarrow> []
                 | Some lc \<Rightarrow> if has_channel w lc then [SendMessage lc ?msg] else []"
  have hs: "handleSlashCommand e i w = ticket_delete e i w"
    using sub by (simp add: handleSlashCommand_def)
  have a: "handleSlashCommand e i w = (Inl ExportError, w\<lparr>trace := trace w @ [DeferReply]\<rparr>)"
    if "fails e (ExportTranscript ?c)"
    using that tick staff nd
    by (simp add: hs ticket_delete_def seq_def deferReply_def outside_def generateTranscript_def)
  have tail: "handleSlashCommand e i w =
      (if \<not> has_channel w ?c \<or> fails e (DeleteChannel ?c)
       then (Inl GatewayError,
          w\<lparr>db_tickets := (db_tickets w)(?c := None),
            db_ticket_members := filter (\<lambda>r. fst r \<noteq> ?c) (db_ticket_members w),
            trace := trace w @ [DeferReply, ExportTranscript ?c] @ ?logcalls\<rparr>)
       else if fails e (EditReply DeletedReply) then (Inl GatewayError, deleted ?c ?logcalls w)
       else (Inr (), (deleted ?c ?logcalls w)
               \<lparr>trace := trace (deleted ?c ?logcalls w) @ [EditReply DeletedReply]\<rparr>))"
    if nx: "\<not> fails e (ExportTranscript ?c)" and ns: "\<forall>lc m. \<not> fails e (SendMessage lc m)"
  proof -
    let ?w0 = "w\<lparr>trace := trace w @ [DeferReply, ExportTranscript ?c]\<rparr>"
    have lg: "log_transcript e (select_config w) ?msg ?w0 =
        (Inr (), w\<lparr>trace := trace w @ [DeferReply, ExportTranscript ?c] @ ?logcalls\<rparr>)"
      using ns by (simp add: log_transcript_run split: option.splits)
    have "handleSlashCommand e i w =
      seq (delete_ticket ?c) (\<lambda>_.
      seq (delete_members ?c) (\<lambda>_.
      seq (channel_delete e ?c) (\<lambda>_.
      editReply e DeletedReply)))
        (w\<lparr>trace := trace w @ [DeferReply, ExportTranscript ?c] @ ?logcalls\<rparr>)"
      unfolding hs ticket_delete_unfold [OF tick staff nd nx]
      by (subst seq_def) (simp add: lg)
    then show ?thesis unfolding ticket_delete_after_log .
  qed
  have b: "select_ticket (snd (handleSlashCommand e i w)) ?c = None
          \<and> select_members (snd (handleSlashCommand e i w)) ?c = []
          \<and> \<not> has_channel (snd (handleSlashCommand e i w)) ?c
          \<and> new_calls w (snd (handleSlashCommand e i w)) =
              [DeferReply, ExportTranscript ?c] @ ?logcalls @ [DeleteChannel ?c]
              @ (if fails e (EditReply DeletedReply) then [] else [EditReply DeletedReply])
          \<and> fst (handleSlashCommand e i w) =
              (if fails e (EditReply DeletedReply) then Inl GatewayError else Inr ())"
    if nx: "\<not> fails e (ExportTranscript ?c)" and ns: "\<forall>lc m. \<not> fails e (SendMessage lc m)"
      and ch: "has_channel w ?c" and ndel: "\<not> fails e (DeleteChannel ?c)"
  proof -
    have fin: "handleSlashCommand e i w =
        (if fails e (EditReply DeletedReply) then (Inl GatewayError, deleted ?c ?logcalls w)
         else (Inr (), (deleted ?c ?logcalls w)
                 \<lparr>trace := trace (deleted ?c ?logcalls w) @ [EditReply DeletedReply]\<rparr>))"
      using tail [OF nx ns] ch ndel by simp
    have tr: "trace (deleted ?c ?logcalls w) =
        trace w @ [DeferReply, ExportTranscript ?c] @ ?logcalls @ [DeleteChannel ?c]"
      by (simp add: deleted_def)
    show ?thesis
      using deleted_gone(1-3) [where c = ?c and xs = ?logcalls and w = w]
      by (simp add: fin select_ticket_def select_members_def has_channel_def new_calls_def tr)
  qed
  have c: "fst (handleSlashCommand e i w) = Inl GatewayError
          \<and> select_ticket (snd (handleSlashCommand e i w)) ?c = None
          \<and> select_members (snd (handleSlashCommand e i w)) ?c = []
          \<and> guild_channels (snd (handleSlashCommand e i w)) = guild_channels w
          \<and> new_calls w (snd (handleSlashCommand e i w)) =
              [DeferReply, ExportTranscript ?c] @ ?logcalls"
    if nx: "\<not> fails e (ExportTranscript ?c)" and ns: "\<forall>lc m. \<not> fails e (SendMessage lc m)"
      and del: "fails e (DeleteChannel ?c)"
  proof -
    have fin: "handleSlashCommand e i w = (Inl GatewayError,
          w\<lparr>db_tickets := (db_tickets w)(?c := None),
            db_ticket_members := filter (\<lambda>r. fst r \<noteq> ?c) (db_ticket_members w),
            trace := trace w @ [DeferReply, ExportTranscript ?c] @ ?logcalls\<rparr>)"
      using tail [OF nx ns] del by simp
    show ?thesis
      by (simp add: fin select_ticket_def select_members_def new_calls_def filter_empty_conv)
  qed
  from a b c show ?thesis by blast
qed

text \<open>
  Claim C5, witness: the staff member \<open>S\<close> deletes \<open>T\<close>, once with the export rejected,
  once with nothing rejected, and once with the deletion of the channel rejected.
\<close>

theorem delete_needs_export_witness:
  "subcommand (staff_S ''T'' Delete) = Delete
   \<and> select_ticket ex_world ''T'' = Some ex_ticket
   \<and> isStaff ex_world (staff_S ''T'' Delete)
   \<and> fails (ex_env_failing (ExportTranscript ''T'')) (ExportTranscript ''T'')
   \<and> handleSlashCommand (ex_env_failing (ExportTranscript ''T'')) (staff_S ''T'' Delete) ex_world =
       (Inl ExportError, ex_world\<lparr>trace := trace ex_world @ [DeferReply]\<rparr>)
   \<and> has_channel ex_world ''T''
   \<and> select_ticket (snd (handleSlashCommand ex_env (staff_S ''T'' Delete) ex_world)) ''T'' = None
   \<and> select_members (snd (handleSlashCommand ex_env (staff_S ''T'' Delete) ex_world)) ''T'' = []
   \<and> \<not> has_channel (snd (handleSlashCommand ex_env (staff_S ''T'' Delete) ex_world)) ''T''
   \<and> new_calls ex_world (snd (handleSlashCommand ex_env (staff_S ''T'' Delete) ex_world)) =
       [DeferReply, ExportTranscript ''T'',
        SendMessage ''LOG'' (DeletedTranscript ''T'' ''Sam#1'' (TranscriptOf ''T'')),
        DeleteChannel ''T'', EditReply DeletedReply]
   \<and> fst (handleSlashCommand ex_env (staff_S ''T'' Delete) ex_world) = Inr ()
   \<and> fails (ex_env_failing (DeleteChannel ''T'')) (DeleteChannel ''T'')
   \<and> fst (handleSlashCommand (ex_env_failing (DeleteChannel ''T'')) (staff_S ''T'' Delete)
            ex_world) = Inl GatewayError
   \<and> select_ticket (snd (handleSlashCommand (ex_env_failing (DeleteChannel ''T''))
            (staff_S ''T'' Delete) ex_world)) ''T'' = None
   \<and> select_members (snd (handleSlashCommand (ex_env_failing (DeleteChannel ''T''))
            (staff_S ''T'' Delete) ex_world)) ''T'' = []
   \<and> has_channel (snd (handleSlashCommand (ex_env_failing (DeleteChannel ''T''))
            (staff_S ''T'' Delete) ex_world)) ''T''"
proof -
  let ?i = "staff_S ''T'' Delete"
  let ?e = "ex_env_failing (ExportTranscript ''T'')"
  let ?d = "ex_env_failing (DeleteChannel ''T'')"
  have c: "channel_id ?i = ''T''" by (simp add: staff_S_def)
  have h1: "subcommand ?i = Delete" by (simp add: staff_S_def)
  have h2: "select_ticket ex_world (channel_id ?i) = Some ex_ticket"
    by (simp add: program_defs example_defs)
  have h3: "isStaff ex_world ?i" by (simp add: program_defs example_defs)
  have h4: "\<not> fails ?e DeferReply" "\<not> fails ?d DeferReply"
    by (simp_all add: ex_env_failing_def)
  have h5: "\<not> fails ex_env call" for call by (simp add: ex_env_def)
  have h6: "fails ?e (ExportTranscript ''T'')" by (simp add: ex_env_failing_def)
  have h7: "has_channel ex_world ''T''" "has_channel ex_world ''LOG''"
    by (simp_all add: program_defs example_defs)
  have h8: "fails ?d (DeleteChannel ''T'')" "\<not> fails ?d (ExportTranscript ''T'')"
    "\<not> fails ?d (SendMessage lc m)" for lc m
    by (simp_all add: ex_env_failing_def)
  have lg: "truthy (Option.bind (select_config ex_world) logChannel) = Some ''LOG''"
    by (simp add: program_defs example_defs)
  have u: "user_tag (caller ?i) = ''Sam#1''" by (simp add: staff_S_def)
  have hc: "has_channel (snd (handleSlashCommand ?d ?i ex_world)) ''T''"
    by (simp add: program_defs example_defs)
  from delete_needs_export [OF h1 h2 h3 h4(1)] delete_needs_export [OF h1 h2 h3 h5]
    delete_needs_export [OF h1 h2 h3 h4(2)]
    h1 h2 h3 h6 h7 hc
  show ?thesis unfolding c by (simp add: h5 h8 lg u)
qed

text \<open>
  Claim C5, counterexample: with the export rejected, \<^verbatim>\<open>delete\<close> by the staff member
  \<open>S\<close> fails, and the ticket row, the member rows and the channel are all still there.
\<close>

theorem delete_export_counterexample:
  "subcommand (staff_S ''T'' Delete) = Delete
   \<and> isStaff ex_world (staff_S ''T'' Delete)
   \<and> select_ticket ex_world ''T'' = Some ex_ticket
   \<and> fails (ex_env_failing (ExportTranscript ''T'')) (ExportTranscript ''T'')
   \<and> fst (handleSlashCommand (ex_env_failing (ExportTranscript ''T'')) (staff_S ''T'' Delete)
            ex_world) = Inl ExportError
   \<and> select_ticket (snd (handleSlashCommand (ex_env_failing (ExportTranscript ''T''))
            (staff_S ''T'' Delete) ex_world)) ''T'' = Some ex_ticket
   \<and> select_members (snd (handleSlashCommand (ex_env_failing (ExportTranscript ''T''))
            (staff_S ''T'' Delete) ex_world)) ''T'' = [''U'', ''X'', ''Y'']
   \<and> has_channel (snd (handleSlashCommand (ex_env_failing (ExportTranscript ''T''))
            (staff_S ''T'' Delete) ex_world)) ''T''"
  by (simp add: program_defs example_defs)

text \<open>
  Claim C6. A \<^verbatim>\<open>delete\<close> that returns normally was issued in a channel with a ticket
  row; afterwards the lookup of a ticket by that channel finds none, no member row names
  the channel, and the guild no longer has the channel, whose deletion is among the calls
  made.
\<close>

theorem delete_removes:
  assumes sub: "subcommand i = Delete"
    and ok: "fst (handleSlashCommand e i w) = Inr ()"
  shows "select_ticket w (channel_id i) \<noteq> None
    \<and> select_ticket (snd (handleSlashCommand e i w)) (channel_id i) = None
    \<and> select_members (snd (handleSlashCommand e i w)) (channel_id i) = []
    \<and> has_channel w (channel_id i)
    \<and> \<not> has_channel (snd (handleSlashCommand e i w)) (channel_id i)
    \<and> DeleteChannel (channel_id i) \<in> set (new_calls w (snd (handleSlashCommand e i w)))"
proof -
  let ?c = "channel_id i"
  let ?w0 = "w\<lparr>trace := trace w @ [DeferReply, ExportTranscript ?c]\<rparr>"
  let ?msg = "DeletedTranscript ?c (user_tag (caller i)) (TranscriptOf ?c)"
  from ok sub obtain t where tick: "select_ticket w ?c = Some t" and staff: "isStaff w i"
    and nd: "\<not> fails e DeferReply" and nx: "\<not> fails e (ExportTranscript ?c)"
    by (auto simp: handleSlashCommand_def ticket_delete_def throw_def seq_def deferReply_def
          outside_def generateTranscript_def split: option.splits if_splits)
  note unfold = ticket_delete_unfold [OF tick staff nd nx]
  obtain r1 w1 where s1: "log_transcript e (select_config w) ?msg ?w0 = (r1, w1)"
    by fastforce
  from ok sub s1 obtain y where r1: "r1 = Inr y"
    by (cases r1) (auto simp: handleSlashCommand_def unfold seq_def)
  from s1 r1 obtain xs where w1: "w1 = w\<lparr>trace := trace w @ [DeferReply, ExportTranscript ?c] @ xs\<rparr>"
    by (auto dest: log_transcript_Inr)
  have run: "handleSlashCommand e i w =
      seq (delete_ticket ?c) (\<lambda>_.
      seq (delete_members ?c) (\<lambda>_.
      seq (channel_delete e ?c) (\<lambda>_.
      editReply e DeletedReply)))
        (w\<lparr>trace := trace w @ [DeferReply, ExportTranscript ?c] @ xs\<rparr>)"
  proof -
    have "handleSlashCommand e i w = ticket_delete e i w"
      using sub by (simp add: handleSlashCommand_def)
    also have "\<dots> = seq (delete_ticket ?c) (\<lambda>_.
      seq (delete_members ?c) (\<lambda>_.
      seq (channel_delete e ?c) (\<lambda>_.
      editReply e DeletedReply))) w1"
      unfolding unfold by (subst seq_def) (simp add: s1 r1)
    finally show ?thesis unfolding w1 .
  qed
  from ok have ch: "has_channel w ?c" and
    fin: "handleSlashCommand e i w =
      (Inr (), (deleted ?c xs w)\<lparr>trace := trace (deleted ?c xs w) @ [EditReply DeletedReply]\<rparr>)"
    unfolding run ticket_delete_after_log by (auto split: if_splits)
  show ?thesis
    using tick ch deleted_gone [where c = ?c and xs = xs and w = w]
    by (simp add: fin select_ticket_def select_members_def has_channel_def new_calls_def)
qed

text \<open>Claim C6, witness: the staff member \<open>S\<close> deletes the ticket \<open>T\<close>.\<close>

theorem delete_removes_witness:
  "subcommand (staff_S ''T'' Delete) = Delete
   \<and> fst (handleSlashCommand ex_env (staff_S ''T'' Delete) ex_world) = Inr ()
   \<and> select_ticket ex_world ''T'' = Some ex_ticket
   \<and> select_members ex_world ''T'' = [''U'', ''X'', ''Y'']
   \<and> has_channel ex_world ''T''
   \<and> select_ticket (snd (handleSlashCommand ex_env (staff_S ''T'' Delete) ex_world)) ''T'' = None
   \<and> select_members (snd (handleSlashCommand ex_env (staff_S ''T'' Delete) ex_world)) ''T'' = []
   \<and> \<not> has_channel (snd (handleSlashCommand ex_env (staff_S ''T'' Delete) ex_world)) ''T''
   \<and> DeleteChannel ''T'' \<in> set (new_calls ex_world
        (snd (handleSlashCommand ex_env (staff_S ''T'' Delete) ex_world)))"
proof -
  let ?i = "staff_S ''T'' Delete"
  have c: "channel_id ?i = ''T''" by (simp add: staff_S_def)
  have h1: "subcommand ?i = Delete" by (simp add: staff_S_def)
  have h2: "fst (handleSlashCommand ex_env ?i ex_world) = Inr ()"
    by (simp add: program_defs example_defs)
  have k: "select_ticket ex_world ''T'' = Some ex_ticket"
    "select_members ex_world ''T'' = [''U'', ''X'', ''Y'']"
    by (simp_all add: program_defs example_defs)
  from delete_removes [OF h1 h2] h1 h2 k
  show ?thesis unfolding c by simp
qed

text \<open>
  Claim C7, as amended. \<^verbatim>\<open>remove\<close> with the owner of the ticket as its target always
  fails and leaves the state as it was, so the owner's member row and the owner's overwrite
  stay: with \<open>CannotRemoveOwner\<close> for a caller who is staff or the owner, and with
  \<open>Forbidden\<close> for every other caller, whom the check of line 399 refuses first.
\<close>

theorem remove_owner_refused:
  assumes "subcommand i = Remove (ownerId t)"
    and "select_ticket w (channel_id i) = Some t"
  shows "handleSlashCommand e i w =
     (Inl (if isStaff w i \<or> ownerId t = user_id (caller i) then CannotRemoveOwner
           else Forbidden ''Only ticket owners or staff can remove users!''), w)"
  using assms
  by (auto simp: handleSlashCommand_def ticket_remove_def owner_or_staff_def ownerId_of_def
        seq_def ok_def throw_def)

text \<open>Claim C7, witness: the staff member \<open>S\<close> tries to remove the owner \<open>U\<close>.\<close>

theorem remove_owner_refused_witness:
  "subcommand (staff_S ''T'' (Remove ''U'')) = Remove (ownerId ex_ticket)
   \<and> select_ticket ex_world ''T'' = Some ex_ticket
   \<and> isStaff ex_world (staff_S ''T'' (Remove ''U''))
   \<and> handleSlashCommand ex_env (staff_S ''T'' (Remove ''U'')) ex_world =
       (Inl CannotRemoveOwner, ex_world)"
proof -
  let ?i = "staff_S ''T'' (Remove ''U'')"
  have h1: "subcommand ?i = Remove (ownerId ex_ticket)"
    by (simp add: staff_S_def ex_ticket_def)
  have h2: "select_ticket ex_world (channel_id ?i) = Some ex_ticket"
    by (simp add: program_defs example_defs)
  have s: "isStaff ex_world ?i" by (simp add: program_defs example_defs)
  have c: "channel_id ?i = ''T''" by (simp add: staff_S_def)
  from remove_owner_refused [OF h1 h2, of ex_env] h1 h2 s
  show ?thesis unfolding c by simp
qed

text \<open>
  Claim C7, counterexample: the member \<open>Y\<close>, neither staff nor owner, tries to remove the
  owner \<open>U\<close>; the error is \<open>Forbidden\<close>, not \<open>CannotRemoveOwner\<close>.
\<close>

theorem remove_owner_counterexample:
  "select_ticket ex_world ''T'' = Some ex_ticket
   \<and> ownerId ex_ticket = ''U''
   \<and> fst (handleSlashCommand ex_env (member_Y ''T'' (Remove ''U'')) ex_world) =
       Inl (Forbidden ''Only ticket owners or staff can remove users!'')
   \<and> fst (handleSlashCommand ex_env (member_Y ''T'' (Remove ''U'')) ex_world) \<noteq>
       Inl CannotRemoveOwner"
  by (simp add: program_defs example_defs)

text \<open>
  Claim C8. A caller with the administrator permission who does not hold the support role
  is denied \<^verbatim>\<open>open\<close> and \<^verbatim>\<open>delete\<close>, and the state stays as it was: on a closed
  ticket \<^verbatim>\<open>open\<close> fails with \<open>Forbidden\<close> (and with \<open>NotClosed\<close> where there is no closed
  ticket), on a ticket \<^verbatim>\<open>delete\<close> fails with \<open>Forbidden\<close> (and with \<open>NotATicketChannel\<close>
  where there is no ticket).
\<close>

theorem administrator_alone_denied:
  assumes "isAdmin i" and "\<not> isStaff w i"
  shows "(subcommand i = Open \<longrightarrow>
            handleSlashCommand e i w =
              (Inl (if select_closed_ticket w (channel_id i) = None then NotClosed
                    else Forbidden ''Only staff can reopen tickets!''), w))
       \<and> (subcommand i = Delete \<longrightarrow>
            handleSlashCommand e i w =
              (Inl (if select_ticket w (channel_id i) = None then NotATicketChannel
                    else Forbidden ''Only staff can delete tickets!''), w))"
  using assms
  by (auto simp: handleSlashCommand_def ticket_open_def ticket_delete_def throw_def
           split: option.splits)

text \<open>
  Claim C8, witness: the administrator \<open>A\<close>, without the support role, on the closed
  ticket \<open>T\<close>.
\<close>

theorem administrator_alone_denied_witness:
  "isAdmin (admin_A ''T'' Open) \<and> isAdmin (admin_A ''T'' Delete)
   \<and> \<not> isStaff ex_world_closed (admin_A ''T'' Open)
   \<and> \<not> isStaff ex_world_closed (admin_A ''T'' Delete)
   \<and> handleSlashCommand ex_env (admin_A ''T'' Open) ex_world_closed =
       (Inl (Forbidden ''Only staff can reopen tickets!''), ex_world_closed)
   \<and> handleSlashCommand ex_env (admin_A ''T'' Delete) ex_world_closed =
       (Inl (Forbidden ''Only staff can delete tickets!''), ex_world_closed)"
proof -
  have a: "isAdmin (admin_A ''T'' Open)" "isAdmin (admin_A ''T'' Delete)"
    by (simp_all add: isAdmin_def admin_A_def)
  have s: "\<not> isStaff ex_world_closed (admin_A ''T'' Open)"
    "\<not> isStaff ex_world_closed (admin_A ''T'' Delete)"
    by (simp_all add: program_defs example_defs)
  have t: "select_closed_ticket ex_world_closed ''T'' \<noteq> None"
    "select_ticket ex_world_closed ''T'' \<noteq> None"
    by (simp_all add: program_defs example_defs)
  have c: "channel_id (admin_A ''T'' Open) = ''T''" "channel_id (admin_A ''T'' Delete) = ''T''"
    "subcommand (admin_A ''T'' Open) = Open" "subcommand (admin_A ''T'' Delete) = Delete"
    by (simp_all add: admin_A_def)
  from administrator_alone_denied [OF a(1) s(1), of ex_env]
    administrator_alone_denied [OF a(2) s(2), of ex_env] a s t
  show ?thesis by (simp add: c)
qed

text \<open>
  Claim C9. For a staff caller, \<^verbatim>\<open>add\<close> in a channel without a ticket row is never
  rejected as not a ticket channel. When the guild has the channel and the edit of the
  overwrite is not rejected, the target is granted the channel and the table
  \<^verbatim>\<open>ticket_members\<close> holds a row for the channel and the target, while \<^verbatim>\<open>tickets\<close>
  still has no row for the channel: not every member row belongs to a ticket row any more.
\<close>

theorem add_without_ticket_staff:
  assumes sub: "subcommand i = Add target"
    and staff: "isStaff w i"
    and none: "select_ticket w (channel_id i) = None"
  shows "fst (handleSlashCommand e i w) \<noteq> Inl NotATicketChannel
    \<and> (has_channel w (channel_id i) \<and> \<not> fails e (EditOverwrite (channel_id i) target) \<longrightarrow>
         overwrite_of (snd (handleSlashCommand e i w)) (channel_id i) target =
           Some (grant (overwrite_of w (channel_id i) target))
       \<and> granted (snd (handleSlashCommand e i w)) (channel_id i) target
       \<and> (channel_id i, target) \<in> set (db_ticket_members (snd (handleSlashCommand e i w)))
       \<and> select_ticket (snd (handleSlashCommand e i w)) (channel_id i) = None
       \<and> \<not> members_have_tickets (snd (handleSlashCommand e i w))
       \<and> (\<not> fails e (Reply (AddedReply target)) \<longrightarrow>
            fst (handleSlashCommand e i w) = Inr ()))"
proof -
  let ?c = "channel_id i"
  have unfold: "handleSlashCommand e i w =
      seq (overwrites_edit e ?c target) (\<lambda>_.
      seq (insert_or_ignore_member ?c target) (\<lambda>_.
      reply e (AddedReply target))) w"
    using assms
    by (simp add: handleSlashCommand_def ticket_add_def owner_or_staff_def seq_def ok_def)
  obtain r1 w1 where s1: "overwrites_edit e ?c target w = (r1, w1)" by fastforce
  have first: "fst (handleSlashCommand e i w) \<noteq> Inl NotATicketChannel"
  proof (cases r1)
    case (Inl x)
    with s1 have "x = GatewayError" by (auto dest: overwrites_edit_Inl)
    with Inl s1 show ?thesis by (simp add: unfold seq_def)
  next
    case (Inr y)
    with s1 show ?thesis
      by (auto simp: unfold seq_def insert_or_ignore_member_def reply_def outside_def)
  qed
  have second: "overwrite_of (snd (handleSlashCommand e i w)) ?c target =
           Some (grant (overwrite_of w ?c target))
       \<and> granted (snd (handleSlashCommand e i w)) ?c target
       \<and> (?c, target) \<in> set (db_ticket_members (snd (handleSlashCommand e i w)))
       \<and> select_ticket (snd (handleSlashCommand e i w)) ?c = None
       \<and> \<not> members_have_tickets (snd (handleSlashCommand e i w))
       \<and> (\<not> fails e (Reply (AddedReply target)) \<longrightarrow> fst (handleSlashCommand e i w) = Inr ())"
    if ch: "has_channel w ?c" and nf: "\<not> fails e (EditOverwrite ?c target)"
  proof -
    from ch nf have "fst (overwrites_edit e ?c target w) = Inr ()"
      by (simp add: overwrites_edit_def on_channel_run)
    with s1 have r1: "r1 = Inr ()" by simp
    have ow: "overwrite_of w1 ?c target = Some (grant (overwrite_of w ?c target))"
      using overwrites_edit_overwrite [OF s1 [unfolded r1], of ?c target] by simp
    have st: "same_store w w1"
      using s1 by (simp add: overwrites_edit_def on_channel_same_store)
    have gr: "granted w1 ?c target" using ow by (rule granted_grant)
    have base: "overwrite_of (snd (handleSlashCommand e i w)) ?c target =
           Some (grant (overwrite_of w ?c target))
       \<and> granted (snd (handleSlashCommand e i w)) ?c target
       \<and> (?c, target) \<in> set (db_ticket_members (snd (handleSlashCommand e i w)))
       \<and> select_ticket (snd (handleSlashCommand e i w)) ?c = None
       \<and> (\<not> fails e (Reply (AddedReply target)) \<longrightarrow> fst (handleSlashCommand e i w) = Inr ())"
      using s1 r1 ow st gr none
      by (auto simp: unfold seq_def insert_or_ignore_member_def reply_def outside_def
            same_store_def select_ticket_def granted_def overwrite_of_def)
    then have "\<not> members_have_tickets (snd (handleSlashCommand e i w))"
      by (intro orphan_row [of ?c target]) (simp_all add: select_ticket_def)
    with base show ?thesis by simp
  qed
  from first second show ?thesis by blast
qed

text \<open>
  Claim C9, witness: the staff member \<open>S\<close> adds \<open>X\<close> in the log channel, which is no
  ticket channel.
\<close>

theorem add_without_ticket_staff_witness:
  "subcommand (staff_S ''LOG'' (Add ''X'')) = Add ''X''
   \<and> isStaff ex_world (staff_S ''LOG'' (Add ''X''))
   \<and> select_ticket ex_world ''LOG'' = None
   \<and> has_channel ex_world ''LOG''
   \<and> fst (handleSlashCommand ex_env (staff_S ''LOG'' (Add ''X'')) ex_world) = Inr ()
   \<and> overwrite_of (snd (handleSlashCommand ex_env (staff_S ''LOG'' (Add ''X'')) ex_world))
         ''LOG'' ''X'' = Some both
   \<and> members_have_tickets ex_world
   \<and> \<not> members_have_tickets (snd (handleSlashCommand ex_env (staff_S ''LOG'' (Add ''X'')) ex_world))
   \<and> (''LOG'', ''X'') \<in> set (db_ticket_members
         (snd (handleSlashCommand ex_env (staff_S ''LOG'' (Add ''X'')) ex_world)))
   \<and> select_ticket (snd (handleSlashCommand ex_env (staff_S ''LOG'' (Add ''X'')) ex_world))
         ''LOG'' = None"
proof -
  let ?i = "staff_S ''LOG'' (Add ''X'')"
  have h1: "subcommand ?i = Add ''X''" by (simp add: staff_S_def)
  have h2: "isStaff ex_world ?i" by (simp add: program_defs example_defs)
  have h3: "select_ticket ex_world (channel_id ?i) = None"
    by (simp add: program_defs example_defs)
  have c: "channel_id ?i = ''LOG''" by (simp add: staff_S_def)
  have h4: "has_channel ex_world ''LOG''" by (simp add: program_defs example_defs)
  have h5: "\<not> fails ex_env call" for call by (simp add: ex_env_def)
  have o: "overwrite_of ex_world ''LOG'' ''X'' = None" by (simp add: program_defs example_defs)
  have inv: "members_have_tickets ex_world" by (simp add: program_defs example_defs)
  from add_without_ticket_staff [OF h1 h2 h3, of ex_env] h1 h2 h3 h4 inv
  show ?thesis unfolding c by (simp add: h5 o grant_def both_def)
qed

text \<open>
  Claim C10. For a staff caller, \<^verbatim>\<open>remove\<close> in a channel without a ticket row passes the
  guards of lines 398 and 399 and throws the \<open>TypeError\<close> of reading \<^verbatim>\<open>ownerId\<close> of
  \<^verbatim>\<open>undefined\<close> in line 400: it neither succeeds nor fails with \<open>NotATicketChannel\<close>, and
  the state stays as it was.
\<close>

theorem remove_without_ticket_staff:
  assumes "subcommand i = Remove target"
    and "isStaff w i"
    and "select_ticket w (channel_id i) = None"
  shows "handleSlashCommand e i w = (Inl TypeError, w)"
  using assms
  by (simp add: handleSlashCommand_def ticket_remove_def owner_or_staff_def ownerId_of_def
        seq_def ok_def throw_def)

text \<open>
  Claim C10, witness: the staff member \<open>S\<close> removes \<open>X\<close> in the log channel.
\<close>

theorem remove_without_ticket_staff_witness:
  "subcommand (staff_S ''LOG'' (Remove ''X'')) = Remove ''X''
   \<and> isStaff ex_world (staff_S ''LOG'' (Remove ''X''))
   \<and> select_ticket ex_world ''LOG'' = None
   \<and> handleSlashCommand ex_env (staff_S ''LOG'' (Remove ''X'')) ex_world
       = (Inl TypeError, ex_world)"
proof -
  have h1: "subcommand (staff_S ''LOG'' (Remove ''X'')) = Remove ''X''"
    by (simp add: staff_S_def)
  have h2: "isStaff ex_world (staff_S ''LOG'' (Remove ''X''))"
    by (simp add: program_defs example_defs)
  have h3: "select_ticket ex_world (channel_id (staff_S ''LOG'' (Remove ''X''))) = None"
    by (simp add: program_defs example_defs)
  from remove_without_ticket_staff [OF h1 h2 h3, of ex_env] h1 h2 h3
  show ?thesis by (simp add: staff_S_def)
qed

end
